theory Spec2Isabelle
  imports Main
begin

section \<open>JavaScript values and errors\<close>

text \<open>
  The model of \<^verbatim>\<open>vendor/users/models/user.server.model.js\<close>. The fields and arguments
  the module handles are Mongoose \<^verbatim>\<open>String\<close> paths: a value is a string, \<^verbatim>\<open>undefined\<close>
  or \<^verbatim>\<open>null\<close>. Strings are lists of characters, one per code unit (the 8-bit characters
  of HOL: passwords, salts and hashes are taken to be ASCII). A \<^verbatim>\<open>throw\<close>, or a rejected
  promise, is the left injection of a sum.
\<close>

datatype jsval = Undefined | Null | Str string

datatype js_error = Error string

type_synonym bytes = "nat list"

fun truthy :: "jsval \<Rightarrow> bool" where
  "truthy Undefined = False"
| "truthy Null = False"
| "truthy (Str s) = (s \<noteq> [])"

fun join :: "string \<Rightarrow> string list \<Rightarrow> string" where
  "join sep [] = []"
| "join sep [x] = x"
| "join sep (x # y # ys) = x @ sep @ join sep (y # ys)"

section \<open>The libraries the module requires\<close>

text \<open>
  \<^verbatim>\<open>crypto\<close>, \<^verbatim>\<open>bcryptjs\<close> and \<^verbatim>\<open>owasp-password-strength-test\<close> are not code of the
  repository: their functions are parameters of the model, collected in one record.
  \<^verbatim>\<open>hashSync\<close> is called on two strings and may throw (a malformed salt);
  \<^verbatim>\<open>compareSync\<close> receives whatever the caller passes.
\<close>

record owasp_result =
  errors :: "string list"
  requiredTestErrors :: "string list"
  optionalTestErrors :: "string list"

record libs =
  pbkdf2Sync :: "string \<Rightarrow> bytes \<Rightarrow> nat \<Rightarrow> nat \<Rightarrow> string \<Rightarrow> bytes"
  Buffer_from_base64 :: "string \<Rightarrow> bytes"
  toString_base64 :: "bytes \<Rightarrow> string"
  hashSync :: "string \<Rightarrow> string \<Rightarrow> js_error + string"
  compareSync :: "jsval \<Rightarrow> jsval \<Rightarrow> js_error + bool"
  owasp_test :: "string \<Rightarrow> owasp_result"

section \<open>hashPassword\<close>

text \<open>
  \<^verbatim>\<open>UserSchema.statics.hashPassword\<close>: hashing happens only when both salt and password
  are truthy; every tag other than \<^verbatim>\<open>'bcrypt'\<close> takes the PBKDF2 branch.
\<close>

definition hashPassword :: "libs \<Rightarrow> jsval \<Rightarrow> jsval \<Rightarrow> jsval \<Rightarrow> js_error + jsval" where
  "hashPassword L pw slt tag =
     (if truthy slt \<and> truthy pw then
        (case (pw, slt) of
           (Str p, Str s) \<Rightarrow>
             if tag = Str ''bcrypt'' then
               (case hashSync L p s of Inl e \<Rightarrow> Inl e | Inr h \<Rightarrow> Inr (Str h))
             else
               Inr (Str (toString_base64 L
                      (pbkdf2Sync L p (Buffer_from_base64 L s) 10000 64 ''sha512'')))
         | _ \<Rightarrow> Inr pw)
      else Inr pw)"

section \<open>The user document\<close>

text \<open>
  The schema paths the modelled functions read or write, and the two pieces of Mongoose
  document state the hooks use: the modified paths (\<^verbatim>\<open>isModified\<close>) and the validation
  errors recorded by \<^verbatim>\<open>invalidate\<close>.
\<close>

record user =
  name_first :: string
  name_last :: string
  email :: string
  username :: string
  phone :: jsval
  password :: jsval
  salt :: jsval
  enctype :: jsval
  provider :: jsval
  modifiedPaths :: "string list"
  validationErrors :: "(string \<times> string) list"

definition isModified :: "user \<Rightarrow> string \<Rightarrow> bool" where
  "isModified doc path = (path \<in> set (modifiedPaths doc))"

definition invalidate :: "user \<Rightarrow> string \<Rightarrow> string \<Rightarrow> user" where
  "invalidate doc path msg = doc\<lparr>validationErrors := validationErrors doc @ [(path, msg)]\<rparr>"

text \<open>A document as the schema defaults leave it: no password, no salt, \<^verbatim>\<open>'crypto'\<close>.\<close>

definition schema_defaults :: user where
  "schema_defaults =
     \<lparr>name_first = '''', name_last = '''', email = '''', username = '''', phone = Undefined,
      password = Str '''', salt = Undefined, enctype = Str ''crypto'', provider = Undefined,
      modifiedPaths = [], validationErrors = []\<rparr>"

section \<open>authenticate\<close>

definition authenticate :: "libs \<Rightarrow> user \<Rightarrow> jsval \<Rightarrow> js_error + bool" where
  "authenticate L doc pw =
     (if enctype doc = Str ''bcrypt'' then compareSync L pw (password doc)
      else (case hashPassword L pw (salt doc) (enctype doc) of
              Inl e \<Rightarrow> Inl e
            | Inr h \<Rightarrow> Inr (password doc = h)))"

section \<open>Field validators\<close>

text \<open>\<^verbatim>\<open>const validateLocalStrategyProperty = () => true\<close>: the argument is ignored.\<close>

definition validateLocalStrategyProperty :: "string \<Rightarrow> bool" where
  "validateLocalStrategyProperty property = True"

text \<open>
  A schema entry \<^verbatim>\<open>validate: [fn, message]\<close>: Mongoose reports the message when the
  function returns a falsy value.
\<close>

definition run_validator :: "('a \<Rightarrow> bool) \<times> string \<Rightarrow> 'a \<Rightarrow> string option" where
  "run_validator v x = (if fst v x then None else Some (snd v))"

definition name_first_validate :: "(string \<Rightarrow> bool) \<times> string" where
  "name_first_validate = (validateLocalStrategyProperty, ''Please fill in your first name'')"

definition name_last_validate :: "(string \<Rightarrow> bool) \<times> string" where
  "name_last_validate = (validateLocalStrategyProperty, ''Please fill in your last name'')"

section \<open>The phone validator\<close>

text \<open>
  \<^verbatim>\<open>validateLocalStrategyPhone\<close> is an arrow function, so its \<^verbatim>\<open>this\<close> is the \<^verbatim>\<open>this\<close> of the
  module body: the object \<^verbatim>\<open>module.exports\<close> was when the module started, which has no
  property. Reading a missing property gives \<^verbatim>\<open>undefined\<close>. The function is first
  written over an arbitrary \<^verbatim>\<open>this\<close>, then closed over the module's.
\<close>

type_synonym js_object = "string \<Rightarrow> jsval option"

definition get_prop :: "js_object \<Rightarrow> string \<Rightarrow> jsval" where
  "get_prop obj k = (case obj k of None \<Rightarrow> Undefined | Some v \<Rightarrow> v)"

definition module_this :: js_object where
  "module_this = Map.empty"

text \<open>The pattern \<^verbatim>\<open>/^\+[1-9]{1}[0-9]{3,14}$/\<close>.\<close>

fun phone_pattern :: "string \<Rightarrow> bool" where
  "phone_pattern (p # d # ds) =
     (p = CHR ''+'' \<and> d \<in> set ''123456789'' \<and> 3 \<le> length ds \<and> length ds \<le> 14 \<and>
      list_all (\<lambda>c. c \<in> set ''0123456789'') ds)"
| "phone_pattern _ = False"

definition validateLocalStrategyPhone_in :: "js_object \<Rightarrow> string \<Rightarrow> bool" where
  "validateLocalStrategyPhone_in this ph =
     (if ph = [] then True
      else (get_prop this ''provider'' \<noteq> Str ''local'' \<and> \<not> truthy (get_prop this ''updated''))
           \<or> phone_pattern ph)"

definition validateLocalStrategyPhone :: "string \<Rightarrow> bool" where
  "validateLocalStrategyPhone ph = validateLocalStrategyPhone_in module_this ph"

definition phone_validate :: "(string \<Rightarrow> bool) \<times> string" where
  "phone_validate = (validateLocalStrategyPhone, ''Please fill a valid phone number'')"

section \<open>The lifecycle hooks\<close>

text \<open>
  \<^verbatim>\<open>UserSchema.pre('validate', ...)\<close>: the strength test runs when the provider is
  \<^verbatim>\<open>'local'\<close>, the password is truthy and the path is modified; its messages, joined
  by a space, invalidate the \<^verbatim>\<open>password\<close> path.
\<close>

definition pre_validate :: "libs \<Rightarrow> user \<Rightarrow> user" where
  "pre_validate L doc =
     (if provider doc = Str ''local'' \<and> truthy (password doc) \<and> isModified doc ''password''
      then
        (case password doc of
           Str pw \<Rightarrow>
             (let result = owasp_test L pw in
              if errors result \<noteq> []
              then invalidate doc ''password'' (join '' '' (errors result))
              else doc)
         | _ \<Rightarrow> doc)
      else doc)"

text \<open>
  The random draws of one save: the string \<^verbatim>\<open>bcrypt.genSaltSync()\<close> returns and the
  bytes \<^verbatim>\<open>crypto.randomBytes(n)\<close> returns.
\<close>

record randomness =
  genSaltSync :: string
  randomBytes :: "nat \<Rightarrow> bytes"

text \<open>
  \<^verbatim>\<open>UserSchema.pre('save', ...)\<close>: a new salt for the record's tag (every tag other
  than \<^verbatim>\<open>'bcrypt'\<close> is handled, and rewritten, as \<^verbatim>\<open>'crypto'\<close>), then the password is
  replaced by \<^verbatim>\<open>hashPassword\<close> of it.
\<close>

definition pre_save :: "libs \<Rightarrow> randomness \<Rightarrow> user \<Rightarrow> js_error + user" where
  "pre_save L R doc =
     (if truthy (password doc) \<and> isModified doc ''password'' then
        (let doc1 =
               (if enctype doc = Str ''bcrypt'' then doc\<lparr>salt := Str (genSaltSync R)\<rparr>
                else doc\<lparr>salt := Str (toString_base64 L (randomBytes R 16)),
                         enctype := Str ''crypto''\<rparr>)
         in case hashPassword L (password doc1) (salt doc1) (enctype doc1) of
              Inl e \<Rightarrow> Inl e
            | Inr h \<Rightarrow> Inr (doc1\<lparr>password := h\<rparr>))
      else Inr doc)"

text \<open>
  The order in which Mongoose's \<^verbatim>\<open>save()\<close> runs the two hooks (Mongoose is not code
  of the repository; this is its documented order): the pre-validate hooks, then a
  document with a validation error is refused before any pre-save hook runs and
  nothing is written; otherwise the pre-save hooks run and the document is written.
  The first component is what the caller gets, the second what the store holds.
\<close>

datatype save_error = ValidationError "(string \<times> string) list" | Thrown js_error

definition save :: "libs \<Rightarrow> randomness \<Rightarrow> user \<Rightarrow> user \<Rightarrow> (save_error + user) \<times> user" where
  "save L R stored doc =
     (let d = pre_validate L doc in
      if validationErrors d \<noteq> [] then (Inl (ValidationError (validationErrors d)), stored)
      else (case pre_save L R d of
              Inl e \<Rightarrow> (Inl (Thrown e), stored)
            | Inr d' \<Rightarrow> (Inr d', d')))"

section \<open>generateRandomPassphrase\<close>

text \<open>
  The pattern \<^verbatim>\<open>new RegExp('(.)\\1{2,}', 'g')\<close>: a character that is not a line terminator,
  followed by at least two more copies of it, as many as there are. (The terminators
  U+2028 and U+2029 lie outside the characters modelled here; the generator draws
  letters and digits.) \<^verbatim>\<open>run_end\<close> is the index just after the first match, if there
  is one.
\<close>

definition is_line_terminator :: "char \<Rightarrow> bool" where
  "is_line_terminator c = (c = CHR 0x0A \<or> c = CHR 0x0D)"

fun run_end :: "string \<Rightarrow> nat option" where
  "run_end [] = None"
| "run_end (c # cs) =
     (if \<not> is_line_terminator c \<and> 2 \<le> length (takeWhile (\<lambda>x. x = c) cs)
      then Some (Suc (length (takeWhile (\<lambda>x. x = c) cs)))
      else map_option Suc (run_end cs))"

text \<open>
  The pattern is global, so \<^verbatim>\<open>test\<close> searches from the object's \<^verbatim>\<open>lastIndex\<close> and
  leaves there the end of the match, or 0 when there is none. The result is the answer
  and the new \<^verbatim>\<open>lastIndex\<close>.
\<close>

definition regex_test :: "nat \<Rightarrow> string \<Rightarrow> bool \<times> nat" where
  "regex_test lastIndex s =
     (if length s < lastIndex then (False, 0)
      else (case run_end (drop lastIndex s) of
              None \<Rightarrow> (False, 0)
            | Some e \<Rightarrow> (True, lastIndex + e)))"

text \<open>
  \<^verbatim>\<open>password.replace(repeatingCharacters, '')\<close>: one pass from the left that deletes every
  match; it leaves \<^verbatim>\<open>lastIndex\<close> at 0.
\<close>

function replace_runs :: "string \<Rightarrow> string" where
  "replace_runs [] = []"
| "replace_runs (c # cs) =
     (if \<not> is_line_terminator c \<and> 2 \<le> length (takeWhile (\<lambda>x. x = c) cs)
      then replace_runs (dropWhile (\<lambda>x. x = c) cs)
      else c # replace_runs cs)"
  by pat_completeness auto
termination
  by (relation "measure length") (auto simp: less_Suc_eq_le length_dropWhile_le)

text \<open>
  The loop. \<^verbatim>\<open>gen i\<close> is what the \<^verbatim>\<open>i\<close>-th call of \<^verbatim>\<open>generatePassword.generate\<close> returns
  (its length is drawn by \<^verbatim>\<open>Math.random\<close>). Nothing bounds the number of rounds, so the
  loop is a partial function: \<^verbatim>\<open>None\<close> is a run that never leaves it.
\<close>

partial_function (option) passphrase_loop ::
  "(nat \<Rightarrow> string) \<Rightarrow> nat \<Rightarrow> string \<Rightarrow> nat \<Rightarrow> string option" where
  "passphrase_loop gen i pw lastIndex =
     (if length pw < 20 \<or> fst (regex_test lastIndex pw)
      then passphrase_loop gen (Suc i) (replace_runs (gen i)) 0
      else Some pw)"

definition generateRandomPassphrase :: "libs \<Rightarrow> (nat \<Rightarrow> string) \<Rightarrow> (js_error + string) option" where
  "generateRandomPassphrase L gen =
     (case passphrase_loop gen 0 [] 0 of
        None \<Rightarrow> None
      | Some pw \<Rightarrow>
          Some (if errors (owasp_test L pw) \<noteq> []
                then Inl (Error ''An unexpected problem occured while generating the random passphrase'')
                else Inr pw))"

text \<open>Three equal characters in a row, somewhere in the string.\<close>

fun has_triple :: "string \<Rightarrow> bool" where
  "has_triple (a # b # c # cs) = ((a = b \<and> b = c) \<or> has_triple (b # c # cs))"
| "has_triple _ = False"

section \<open>The TTL index on unvalidated emails\<close>

text \<open>
  An index as \<^verbatim>\<open>collection.indexes()\<close> lists it. A filter is an object of string and
  boolean leaves, kept as an association list with distinct keys; \<^verbatim>\<open>_.isEqual\<close> on two
  such objects does not look at the order of the keys.
\<close>

datatype fval = FStr string | FBool bool

type_synonym js_filter = "(string \<times> fval) list"

definition isEqual :: "js_filter \<Rightarrow> js_filter \<Rightarrow> bool" where
  "isEqual a b = (length a = length b \<and> list_all (\<lambda>kv. map_of b (fst kv) = Some (snd kv)) a)"

record index_spec =
  name :: string
  key :: "(string \<times> int) list"
  partialFilterExpression :: "js_filter option"
  expireAfterSeconds :: "int option"

text \<open>\<^verbatim>\<open>config.validations.config.email\<close>.\<close>

record email_validation =
  validate :: bool
  ttl :: int

definition startsWith :: "string \<Rightarrow> string \<Rightarrow> bool" where
  "startsWith s p = (take (length p) s = p)"

definition filterExpression :: js_filter where
  "filterExpression = [(''validations.type'', FStr ''email''), (''validations.validated'', FBool False)]"

text \<open>
  The store's index catalogue is not code of the repository. It is modelled as the list
  of its indexes, with the two operations as MongoDB documents them: \<^verbatim>\<open>dropIndex\<close>
  removes the index of that name or fails; \<^verbatim>\<open>createIndex\<close> names the index after its key
  (\<^verbatim>\<open>created_at_1\<close>), does nothing when that index exists with the same key and options,
  fails when the name or the key is taken by an index that differs, and adds the index
  otherwise.
\<close>

definition index_name :: "(string \<times> int) list \<Rightarrow> string" where
  "index_name k = join ''_'' (map (\<lambda>fd. fst fd @ ''_'' @ (if snd fd < 0 then ''-1'' else ''1'')) k)"

definition same_spec :: "index_spec \<Rightarrow> (string \<times> int) list \<Rightarrow> int \<Rightarrow> js_filter \<Rightarrow> bool" where
  "same_spec old k eas pfe =
     (name old = index_name k \<and> key old = k \<and> expireAfterSeconds old = Some eas \<and>
      (case partialFilterExpression old of None \<Rightarrow> False | Some f \<Rightarrow> isEqual f pfe))"

definition collection_dropIndex :: "index_spec list \<Rightarrow> string \<Rightarrow> js_error + index_spec list" where
  "collection_dropIndex st nm =
     (if nm \<in> set (map name st) then Inr (filter (\<lambda>i. name i \<noteq> nm) st)
      else Inl (Error ''IndexNotFound''))"

definition collection_createIndex ::
  "index_spec list \<Rightarrow> (string \<times> int) list \<Rightarrow> int \<Rightarrow> js_filter \<Rightarrow> js_error + index_spec list" where
  "collection_createIndex st k eas pfe =
     (case find (\<lambda>i. name i = index_name k \<or> key i = k) st of
        None \<Rightarrow>
          Inr (st @ [\<lparr>name = index_name k, key = k, partialFilterExpression = Some pfe,
                       expireAfterSeconds = Some eas\<rparr>])
      | Some old \<Rightarrow>
          if same_spec old k eas pfe then Inr st else Inl (Error ''IndexOptionsConflict''))"

text \<open>
  The source awaits neither \<^verbatim>\<open>dropIndex\<close> nor \<^verbatim>\<open>createIndex\<close>. A rejection of either is
  handled nowhere in the source, and the catalogue is then as it was. And nothing in
  the source makes the store apply the drop before the create: the order in which the
  two take effect is the store's, and a parameter here.
\<close>

datatype effect_order = AsIssued | Reversed

definition unobserved :: "index_spec list \<Rightarrow> js_error + index_spec list \<Rightarrow> index_spec list" where
  "unobserved st r = (case r of Inl e \<Rightarrow> st | Inr s \<Rightarrow> s)"

text \<open>The predicate of \<^verbatim>\<open>indexes.find\<close>, for the configured TTL \<^verbatim>\<open>t\<close>.\<close>

definition is_outdated :: "int \<Rightarrow> index_spec \<Rightarrow> bool" where
  "is_outdated t i =
     (startsWith (name i) ''created_at'' \<and>
      (case partialFilterExpression i of None \<Rightarrow> False | Some f \<Rightarrow> isEqual f filterExpression) \<and>
      expireAfterSeconds i \<noteq> Some t)"

text \<open>\<^verbatim>\<open>createEmailTTLIndex\<close>, on the catalogue.\<close>

definition createEmailTTLIndex ::
  "effect_order \<Rightarrow> email_validation \<Rightarrow> index_spec list \<Rightarrow> index_spec list" where
  "createEmailTTLIndex eff emailConfig st =
     (if validate emailConfig \<and> 0 < ttl emailConfig then
        (let indexes = st;
             outdatedIndex = find (is_outdated (ttl emailConfig)) indexes;
             create = (\<lambda>s. unobserved s
                         (collection_createIndex s [(''created_at'', 1)] (ttl emailConfig)
                            filterExpression))
         in case outdatedIndex of
              None \<Rightarrow> create st
            | Some ix \<Rightarrow>
                (case eff of
                   AsIssued \<Rightarrow> create (unobserved st (collection_dropIndex st (name ix)))
                 | Reversed \<Rightarrow>
                     unobserved (create st) (collection_dropIndex (create st) (name ix))))
      else st)"

text \<open>
  A rule is an index on \<^verbatim>\<open>{created_at: 1}\<close> with the filter. An index occupies the place
  of the one \<^verbatim>\<open>createIndex\<close> asks for when it has its name or its key. The prior states
  considered, for the configured TTL \<^verbatim>\<open>t\<close>: index names are distinct and there is at most
  one rule, as in every catalogue of the store; only a rule occupies that place or is
  outdated for the source; and a rule with another TTL has a name that starts with
  \<^verbatim>\<open>created_at\<close>. So there is no rule, or the rule with the configured TTL, or the rule
  with another TTL, under any name in the first two cases.
\<close>

definition is_rule :: "index_spec \<Rightarrow> bool" where
  "is_rule i =
     (key i = [(''created_at'', 1)] \<and>
      (case partialFilterExpression i of None \<Rightarrow> False | Some f \<Rightarrow> isEqual f filterExpression))"

definition occupies :: "index_spec \<Rightarrow> bool" where
  "occupies i = (name i = ''created_at_1'' \<or> key i = [(''created_at'', 1)])"

definition prior_state :: "int \<Rightarrow> index_spec list \<Rightarrow> bool" where
  "prior_state t st =
     (distinct (map name st) \<and>
      list_all (\<lambda>i. occupies i \<or> is_outdated t i \<longrightarrow> is_rule i) st \<and>
      list_all (\<lambda>i. is_rule i \<and> expireAfterSeconds i \<noteq> Some t
                  \<longrightarrow> startsWith (name i) ''created_at'') st \<and>
      length (filter is_rule st) \<le> 1)"

definition new_rule :: "int \<Rightarrow> index_spec" where
  "new_rule t =
     \<lparr>name = ''created_at_1'', key = [(''created_at'', 1)],
      partialFilterExpression = Some filterExpression, expireAfterSeconds = Some t\<rparr>"

section \<open>Notifications\<close>

text \<open>
  The module state set up at load time: whether SendGrid is configured, the SMTP
  transport if one was created, and the Twilio client if one was created (the source
  keeps \<^verbatim>\<open>false\<close> in \<^verbatim>\<open>twilioConfig\<close> otherwise). The providers are not code of the
  repository: a send is a function that resolves with a value or rejects.
\<close>

record message =
  msg_to :: "string list"
  msg_from :: string
  msg_subject :: string
  msg_html :: string
  msg_opts :: "(string \<times> string) list"

record sms =
  sms_to :: string
  sms_from :: string
  sms_body :: string

text \<open>
  What SendGrid's \<^verbatim>\<open>send\<close> resolves with: an array of responses (each with a
  \<^verbatim>\<open>toJSON\<close> that returns or throws), or something else.
\<close>

datatype 'r sg_data = SgArray "(js_error + 'r) list" | SgOther 'r

datatype 'r sent = ReturnedFalse | Returned 'r | ReturnedRaw "'r sg_data"

record 'r notifier =
  isSendGrid :: bool
  sgMail_send :: "message \<Rightarrow> js_error + 'r sg_data"
  smtpTransport :: "(message \<Rightarrow> js_error + 'r) option"
  twilioConfig :: "(sms \<Rightarrow> js_error + 'r) option"
  mailer_from :: string
  twilio_from :: string

text \<open>
  \<^verbatim>\<open>sendMail(subject, body, users, opts)\<close>; \<^verbatim>\<open>users\<close> is \<^verbatim>\<open>None\<close> when it is not an
  array.
\<close>

definition sendMail ::
  "'r notifier \<Rightarrow> string \<Rightarrow> string \<Rightarrow> string list option \<Rightarrow> (string \<times> string) list
     \<Rightarrow> js_error + 'r sent" where
  "sendMail N subject body users opts =
     (case users of
        None \<Rightarrow> Inr ReturnedFalse
      | Some us \<Rightarrow>
          (let msg = \<lparr>msg_to = us, msg_from = mailer_from N, msg_subject = subject,
                      msg_html = body, msg_opts = opts\<rparr>
           in if us = [] then Inr ReturnedFalse
              else if isSendGrid N then
                (case sgMail_send N msg of
                   Inl e \<Rightarrow> Inr ReturnedFalse
                 | Inr (SgArray (d # ds)) \<Rightarrow>
                     (case d of Inl e \<Rightarrow> Inr ReturnedFalse | Inr j \<Rightarrow> Inr (Returned j))
                 | Inr data \<Rightarrow> Inr (ReturnedRaw data))
              else
                (case smtpTransport N of
                   Some send \<Rightarrow>
                     (case send msg of Inl e \<Rightarrow> Inr ReturnedFalse | Inr data \<Rightarrow> Inr (Returned data))
                 | None \<Rightarrow> Inr ReturnedFalse)))"

text \<open>
  The load-time choice of \<^verbatim>\<open>twilioConfig\<close>: a client is created when \<^verbatim>\<open>config.twilio\<close>
  has a sender, an account and a token that are not the placeholders; otherwise the
  variable is \<^verbatim>\<open>false\<close>. The result says whether a client was created. With no
  \<^verbatim>\<open>config.twilio\<close> at all and phone validation configured, the warning's condition
  reads a property of \<^verbatim>\<open>undefined\<close> and the module fails to load.
\<close>

record twilio_settings =
  tw_from :: jsval
  accountID :: jsval
  authToken :: jsval

definition load_twilio :: "twilio_settings option \<Rightarrow> bool \<Rightarrow> js_error + bool" where
  "load_twilio cfg phone_validation =
     (case cfg of
        Some c \<Rightarrow>
          Inr (truthy (tw_from c) \<and> tw_from c \<noteq> Str ''TWILIO_FROM'' \<and>
               truthy (accountID c) \<and> accountID c \<noteq> Str ''TWILIO_ACCOUNT_SID'' \<and>
               truthy (authToken c) \<and> authToken c \<noteq> Str ''TWILIO_AUTH_TOKEN'')
      | None \<Rightarrow>
          if phone_validation
          then Inl (Error ''Cannot read properties of undefined'')
          else Inr False)"

text \<open>\<^verbatim>\<open>UserSchema.methods.sendSMS\<close>: the promise of Twilio's \<^verbatim>\<open>messages.create\<close>, or \<^verbatim>\<open>false\<close>.\<close>

definition sendSMS :: "'r notifier \<Rightarrow> user \<Rightarrow> string \<Rightarrow> js_error + 'r sent" where
  "sendSMS N doc body =
     (case (phone doc, twilioConfig N) of
        (Str ph, Some create) \<Rightarrow>
          if ph \<noteq> [] then
            (case create \<lparr>sms_to = ph, sms_from = twilio_from N, sms_body = body\<rparr> of
               Inl e \<Rightarrow> Inl e
             | Inr m \<Rightarrow> Inr (Returned m))
          else Inr ReturnedFalse
      | _ \<Rightarrow> Inr ReturnedFalse)"

text \<open>\<^verbatim>\<open>UserSchema.methods.sendMail\<close>: one recipient, the document's address.\<close>

definition send_mail ::
  "'r notifier \<Rightarrow> user \<Rightarrow> string \<Rightarrow> string \<Rightarrow> (string \<times> string) list \<Rightarrow> js_error + 'r sent" where
  "send_mail N doc subject body opts = sendMail N subject body (Some [email doc]) opts"

section \<open>What the libraries are assumed to do\<close>

text \<open>
  The facts about the libraries that a statement below relies on are named predicates,
  so that each use is visible in the statement. They are the documented behaviour of
  \<^verbatim>\<open>bcryptjs\<close> and of Node's \<^verbatim>\<open>crypto\<close> and \<^verbatim>\<open>Buffer\<close>. For \<^verbatim>\<open>bcryptjs\<close>:
  \<^verbatim>\<open>compareSync\<close> answers false for a hash that is not 60 characters long; it accepts a
  password against the output of \<^verbatim>\<open>hashSync\<close> for it; more precisely it hashes the
  candidate again under the salt the hash carries and compares, so it accepts exactly
  the candidates whose hash under the salt the hash was made with is that hash; a hash
  is 60 characters long; and there is a salt (any that \<^verbatim>\<open>genSaltSync\<close> returns) under
  which \<^verbatim>\<open>hashSync\<close> hashes every password. For \<^verbatim>\<open>crypto\<close> and \<^verbatim>\<open>Buffer\<close>:
  \<^verbatim>\<open>pbkdf2Sync\<close> returns \<^verbatim>\<open>keylen\<close> bytes, and base64 writes four characters for every
  three bytes.
\<close>

definition bcrypt_rejects_malformed :: "libs \<Rightarrow> bool" where
  "bcrypt_rejects_malformed L =
     (\<forall>p h. length h \<noteq> 60 \<longrightarrow> compareSync L (Str p) (Str h) = Inr False)"

definition bcrypt_compare_correct :: "libs \<Rightarrow> bool" where
  "bcrypt_compare_correct L =
     (\<forall>p s h. hashSync L p s = Inr h \<longrightarrow> compareSync L (Str p) (Str h) = Inr True)"

definition kdf_fixed_length :: "libs \<Rightarrow> bool" where
  "kdf_fixed_length L =
     ((\<forall>p s n k d. length (pbkdf2Sync L p s n k d) = k) \<and>
      (\<forall>bs. length (toString_base64 L bs) = 4 * ((length bs + 2) div 3)))"

definition bcrypt_compare_rehashes :: "libs \<Rightarrow> bool" where
  "bcrypt_compare_rehashes L =
     (\<forall>p s h c. hashSync L p s = Inr h \<longrightarrow>
        compareSync L (Str c) (Str h) = Inr (hashSync L c s = Inr h))"

definition bcrypt_fixed_length :: "libs \<Rightarrow> bool" where
  "bcrypt_fixed_length L = (\<forall>p s h. hashSync L p s = Inr h \<longrightarrow> length h = 60)"

definition bcrypt_accepts_some_salt :: "libs \<Rightarrow> bool" where
  "bcrypt_accepts_some_salt L = (\<exists>s. s \<noteq> [] \<and> (\<forall>p. \<exists>h. hashSync L p s = Inr h))"

text \<open>
  What \<^verbatim>\<open>owasp-password-strength-test\<close> documents of its result: every failed required
  test is listed in \<^verbatim>\<open>errors\<close> as well as in \<^verbatim>\<open>requiredTestErrors\<close>.
\<close>

definition owasp_reports_required :: "libs \<Rightarrow> bool" where
  "owasp_reports_required L =
     (\<forall>pw. set (requiredTestErrors (owasp_test L pw)) \<subseteq> set (errors (owasp_test L pw)))"

text \<open>
  A stand-in for the libraries. It implements none of the cryptography: it only shows
  that the predicates above can hold together, and lets the model run on concrete
  inputs.
\<close>

definition stub_hashSync :: "string \<Rightarrow> string \<Rightarrow> js_error + string" where
  "stub_hashSync p s =
     (if length s = 29 then Inr (take 60 (s @ p @ replicate 31 CHR ''.''))
      else Inl (Error ''Invalid salt''))"

definition stub_compareSync :: "jsval \<Rightarrow> jsval \<Rightarrow> js_error + bool" where
  "stub_compareSync c h =
     (case (c, h) of
        (Str p, Str x) \<Rightarrow>
          if length x \<noteq> 60 then Inr False
          else (case stub_hashSync p (take 29 x) of Inl e \<Rightarrow> Inl e | Inr y \<Rightarrow> Inr (y = x))
      | _ \<Rightarrow> Inl (Error ''Illegal arguments''))"

definition stub_base64 :: "bytes \<Rightarrow> string" where
  "stub_base64 bs =
     (let n = 4 * ((length bs + 2) div 3)
      in take n (map (\<lambda>b. char_of (b mod 256)) bs @ replicate n CHR ''=''))"

definition stub_owasp :: "string \<Rightarrow> owasp_result" where
  "stub_owasp pw =
     (let es = (if length pw < 10
                then [''The password must be at least 10 characters long.''] else [])
      in \<lparr>errors = es, requiredTestErrors = es, optionalTestErrors = []\<rparr>)"

definition stub_libs :: libs where
  "stub_libs =
     \<lparr>pbkdf2Sync = (\<lambda>p s n k d. take k (map of_char p @ s @ replicate k 0)),
      Buffer_from_base64 = map of_char,
      toString_base64 = stub_base64,
      hashSync = stub_hashSync,
      compareSync = stub_compareSync,
      owasp_test = stub_owasp\<rparr>"

definition stub_random :: randomness where
  "stub_random =
     \<lparr>genSaltSync = ''$2a$10$abcdefghijklmnopqrstuv'', randomBytes = (\<lambda>n. replicate n 7)\<rparr>"

text \<open>The record a save leaves behind: the hash, and the salt and tag it was made with.\<close>

definition stored_record :: "jsval \<Rightarrow> jsval \<Rightarrow> jsval \<Rightarrow> user" where
  "stored_record h slt tag = schema_defaults\<lparr>password := h, salt := slt, enctype := tag\<rparr>"

section \<open>Properties\<close>

subsection \<open>The stand-in meets the assumptions\<close>

lemma stub_rejects_malformed: "bcrypt_rejects_malformed stub_libs"
  by (simp add: bcrypt_rejects_malformed_def stub_libs_def stub_compareSync_def)

lemma stub_compare_correct: "bcrypt_compare_correct stub_libs"
  by (auto simp: bcrypt_compare_correct_def stub_libs_def stub_compareSync_def stub_hashSync_def
      split: if_splits)

lemma stub_kdf_fixed_length: "kdf_fixed_length stub_libs"
  by (auto simp: kdf_fixed_length_def stub_libs_def stub_base64_def Let_def min_def)

lemma stub_hashSync_salt:
  "stub_hashSync p s = Inr h \<Longrightarrow> length s = 29 \<and> length h = 60 \<and> take 29 h = s"
  by (auto simp: stub_hashSync_def split: if_splits)

lemma stub_compare_rehashes: "bcrypt_compare_rehashes stub_libs"
proof -
  have "stub_compareSync (Str c) (Str h) = Inr (stub_hashSync c s = Inr h)"
    if "stub_hashSync p s = Inr h" for p s h c
  proof -
    from stub_hashSync_salt [OF that] have s: "length s = 29" "length h = 60" "take 29 h = s"
      by simp_all
    then obtain y where y: "stub_hashSync c s = Inr y"
      by (simp add: stub_hashSync_def)
    with s show ?thesis
      by (simp add: stub_compareSync_def)
  qed
  then show ?thesis
    by (simp add: bcrypt_compare_rehashes_def stub_libs_def)
qed

lemma stub_bcrypt_fixed_length: "bcrypt_fixed_length stub_libs"
  using stub_hashSync_salt by (auto simp: bcrypt_fixed_length_def stub_libs_def)

lemma stub_accepts_some_salt: "bcrypt_accepts_some_salt stub_libs"
proof -
  have "\<forall>p. \<exists>h. stub_hashSync p (replicate 29 CHR ''s'') = Inr h"
    by (simp add: stub_hashSync_def)
  moreover have "replicate 29 CHR ''s'' \<noteq> []"
    by simp
  ultimately show ?thesis
    unfolding bcrypt_accepts_some_salt_def stub_libs_def by (auto intro: exI [of _ "replicate 29 CHR ''s''"])
qed

subsection \<open>Hashing and verification\<close>

text \<open>
  A derivation with a fixed output length cannot be injective: two different non-empty
  passwords share a derived value under any salt.
\<close>

lemma kdf_collision:
  assumes "kdf_fixed_length L"
  shows "\<exists>p p'. p \<noteq> p' \<and> p \<noteq> [] \<and> p' \<noteq> [] \<and>
     toString_base64 L (pbkdf2Sync L p bs n 64 d) = toString_base64 L (pbkdf2Sync L p' bs n 64 d)"
proof -
  let ?f = "\<lambda>p. toString_base64 L (pbkdf2Sync L p bs n 64 d)"
  let ?A = "{p::string. p \<noteq> []}"
  have len: "\<And>p. length (?f p) = 88"
    using assms by (simp add: kdf_fixed_length_def)
  have "?f ` ?A \<subseteq> {xs. set xs \<subseteq> UNIV \<and> length xs = 88}"
    using len by auto
  moreover have "finite {xs::string. set xs \<subseteq> UNIV \<and> length xs = 88}"
    by (rule finite_lists_length_eq) simp
  ultimately have fin: "finite (?f ` ?A)"
    by (rule finite_subset)
  have "?A = UNIV - {[]}" by auto
  then have inf: "infinite ?A"
    using infinite_UNIV_listI [where ?'a = char] by simp
  have "\<not> inj_on ?f ?A"
    using fin inf finite_imageD by blast
  then show ?thesis
    unfolding inj_on_def by blast
qed

lemma hashPassword_crypto_total:
  "tag \<noteq> Str ''bcrypt'' \<Longrightarrow> \<exists>v. hashPassword L c slt tag = Inr v"
  by (auto simp: hashPassword_def split: jsval.splits)

text \<open>
  So does bcrypt: its hashes are 60 characters long, so under a salt that \<^verbatim>\<open>hashSync\<close>
  takes, two different non-empty passwords have the same hash.
\<close>

lemma bcrypt_collision:
  assumes "bcrypt_fixed_length L" and "\<forall>p. \<exists>h. hashSync L p s = Inr h"
  shows "\<exists>p p' h. p \<noteq> p' \<and> p \<noteq> [] \<and> p' \<noteq> [] \<and>
     hashSync L p s = Inr h \<and> hashSync L p' s = Inr h"
proof -
  let ?f = "\<lambda>p. hashSync L p s"
  let ?A = "{p::string. p \<noteq> []}"
  have "?f ` ?A \<subseteq> Inr ` {xs. set xs \<subseteq> UNIV \<and> length xs = 60}"
  proof
    fix y assume "y \<in> ?f ` ?A"
    then obtain p where "y = hashSync L p s" by blast
    moreover obtain h where "hashSync L p s = Inr h"
      using assms(2) by blast
    moreover from this have "length h = 60"
      using assms(1) by (simp add: bcrypt_fixed_length_def)
    ultimately show "y \<in> Inr ` {xs. set xs \<subseteq> UNIV \<and> length xs = 60}"
      by simp
  qed
  moreover have "finite {xs::string. set xs \<subseteq> UNIV \<and> length xs = 60}"
    by (rule finite_lists_length_eq) simp
  ultimately have fin: "finite (?f ` ?A)"
    by (meson finite_imageI finite_subset)
  have "?A = UNIV - {[]}" by auto
  then have inf: "infinite ?A"
    using infinite_UNIV_listI [where ?'a = char] by simp
  have "\<not> inj_on ?f ?A"
    using fin inf finite_imageD by blast
  then obtain p p' where pp: "p \<noteq> p'" "p \<noteq> []" "p' \<noteq> []" "?f p = ?f p'"
    unfolding inj_on_def by blast
  obtain h where "hashSync L p s = Inr h"
    using assms(2) by blast
  with pp show ?thesis
    by metis
qed

text \<open>
  C1 (as amended): for a non-empty password \<^verbatim>\<open>p\<close> and a salt \<^verbatim>\<open>s\<close>, on the record that
  holds \<^verbatim>\<open>hashPassword(p, s, a)\<close> with the same salt and tag. Under every tag but
  \<^verbatim>\<open>'bcrypt'\<close>, \<^verbatim>\<open>authenticate\<close> never throws, accepts \<^verbatim>\<open>p\<close>, and accepts a candidate
  exactly when \<^verbatim>\<open>hashPassword\<close> of it is the stored value: it rejects every candidate
  whose derived value differs. Under \<^verbatim>\<open>'bcrypt'\<close> and a non-empty salt, it accepts \<^verbatim>\<open>p\<close>
  when \<^verbatim>\<open>compareSync\<close> accepts a password against its own hash; and when \<^verbatim>\<open>compareSync\<close>
  accepts exactly what hashes to the stored hash under the salt it was made with, it
  accepts a candidate string exactly when \<^verbatim>\<open>hashSync\<close> of it under \<^verbatim>\<open>s\<close> is the stored
  hash: it rejects every candidate whose hash differs.
\<close>

theorem verify_after_hash:
  "p \<noteq> [] \<Longrightarrow> hashPassword L (Str p) (Str s) tag = Inr h \<Longrightarrow>
   password doc = h \<Longrightarrow> salt doc = Str s \<Longrightarrow> enctype doc = tag \<Longrightarrow>
   (tag \<noteq> Str ''bcrypt'' \<longrightarrow>
      authenticate L doc (Str p) = Inr True \<and>
      (\<forall>c. authenticate L doc c = Inr (hashPassword L c (Str s) tag = Inr h))) \<and>
   (tag = Str ''bcrypt'' \<and> s \<noteq> [] \<longrightarrow>
      (bcrypt_compare_correct L \<longrightarrow> authenticate L doc (Str p) = Inr True) \<and>
      (bcrypt_compare_rehashes L \<longrightarrow>
         authenticate L doc (Str p) = Inr True \<and>
         (\<exists>x. h = Str x \<and>
            (\<forall>c. authenticate L doc (Str c) = Inr (hashSync L c s = Inr x)))))"
proof -
  assume ne: "p \<noteq> []"
    and h: "hashPassword L (Str p) (Str s) tag = Inr h"
    and d: "password doc = h" "salt doc = Str s" "enctype doc = tag"
  have crypto: "authenticate L doc (Str p) = Inr True \<and>
      (\<forall>c. authenticate L doc c = Inr (hashPassword L c (Str s) tag = Inr h))"
    if t: "tag \<noteq> Str ''bcrypt''"
  proof -
    have all: "authenticate L doc c = Inr (hashPassword L c (Str s) tag = Inr h)" for c
    proof -
      obtain v where v: "hashPassword L c (Str s) tag = Inr v"
        using hashPassword_crypto_total [OF t] by blast
      show ?thesis
        using d t v by (auto simp: authenticate_def)
    qed
    from all [of "Str p"] h all show ?thesis
      by simp
  qed
  have bcrypt: "(bcrypt_compare_correct L \<longrightarrow> authenticate L doc (Str p) = Inr True) \<and>
      (bcrypt_compare_rehashes L \<longrightarrow>
         authenticate L doc (Str p) = Inr True \<and>
         (\<exists>x. h = Str x \<and>
            (\<forall>c. authenticate L doc (Str c) = Inr (hashSync L c s = Inr x))))"
    if t: "tag = Str ''bcrypt''" and ns: "s \<noteq> []"
  proof -
    from t ne ns h obtain x where x: "hashSync L p s = Inr x" "h = Str x"
      by (auto simp: hashPassword_def split: sum.splits)
    have a: "authenticate L doc c = compareSync L c (Str x)" for c
      using t d x by (simp add: authenticate_def)
    have 1: "authenticate L doc (Str p) = Inr True" if "bcrypt_compare_correct L"
      using that x a by (simp add: bcrypt_compare_correct_def)
    have 2: "authenticate L doc (Str c) = Inr (hashSync L c s = Inr x)"
      if "bcrypt_compare_rehashes L" for c
      using that x(1) a unfolding bcrypt_compare_rehashes_def by simp
    from 2 [of p] x(1) have 3: "authenticate L doc (Str p) = Inr True"
      if "bcrypt_compare_rehashes L"
      using that by simp
    show ?thesis
      using 1 2 3 x(2) by blast
  qed
  show ?thesis
    using crypto bcrypt by blast
qed

theorem verify_after_hash_witness:
  "\<exists>h g. hashPassword stub_libs (Str ''abc'') (Str ''c2FsdA=='') (Str ''crypto'') = Inr h \<and>
     authenticate stub_libs (stored_record h (Str ''c2FsdA=='') (Str ''crypto'')) (Str ''abc'')
       = Inr True \<and>
     authenticate stub_libs (stored_record h (Str ''c2FsdA=='') (Str ''crypto'')) (Str ''abd'')
       = Inr False \<and>
     hashPassword stub_libs (Str ''abc'') (Str ''$2a$10$abcdefghijklmnopqrstuv'') (Str ''bcrypt'')
       = Inr g \<and>
     authenticate stub_libs (stored_record g (Str ''$2a$10$abcdefghijklmnopqrstuv'') (Str ''bcrypt''))
       (Str ''abc'') = Inr True \<and>
     authenticate stub_libs (stored_record g (Str ''$2a$10$abcdefghijklmnopqrstuv'') (Str ''bcrypt''))
       (Str ''abd'') = Inr False"
proof -
  let ?s = "''c2FsdA==''" and ?t = "Str ''crypto''"
  let ?b = "''$2a$10$abcdefghijklmnopqrstuv''" and ?u = "Str ''bcrypt''"
  let ?x = "''$2a$10$abcdefghijklmnopqrstuvabc............................''"
  have ne: "''abc'' \<noteq> []" "?s \<noteq> []" "?b \<noteq> []"
    by simp_all
  obtain h where h: "hashPassword stub_libs (Str ''abc'') (Str ?s) ?t = Inr h"
    using hashPassword_crypto_total [of ?t] by blast
  have "hashPassword stub_libs (Str ''abd'') (Str ?s) ?t
      \<noteq> hashPassword stub_libs (Str ''abc'') (Str ?s) ?t"
    by code_simp
  then have nh: "hashPassword stub_libs (Str ''abd'') (Str ?s) ?t \<noteq> Inr h"
    using h by simp
  have g: "hashPassword stub_libs (Str ''abc'') (Str ?b) ?u = Inr (Str ?x)"
    by code_simp
  have ng: "hashSync stub_libs ''abd'' ?b \<noteq> Inr ?x"
    by code_simp
  have 1: "password (stored_record h (Str ?s) ?t) = h" "salt (stored_record h (Str ?s) ?t) = Str ?s"
    "enctype (stored_record h (Str ?s) ?t) = ?t"
    by (simp_all add: stored_record_def)
  have 2: "password (stored_record (Str ?x) (Str ?b) ?u) = Str ?x"
    "salt (stored_record (Str ?x) (Str ?b) ?u) = Str ?b"
    "enctype (stored_record (Str ?x) (Str ?b) ?u) = ?u"
    by (simp_all add: stored_record_def)
  have t: "?t \<noteq> Str ''bcrypt''"
    by simp
  from verify_after_hash [OF ne(1) h 1] t
  have c1: "authenticate stub_libs (stored_record h (Str ?s) ?t) (Str ''abc'') = Inr True"
    and c2: "authenticate stub_libs (stored_record h (Str ?s) ?t) (Str ''abd'')
      = Inr (hashPassword stub_libs (Str ''abd'') (Str ?s) ?t = Inr h)"
    by blast+
  from c2 nh have c3: "authenticate stub_libs (stored_record h (Str ?s) ?t) (Str ''abd'') = Inr False"
    by simp
  from verify_after_hash [OF ne(1) g 2] ne(3) stub_compare_rehashes
  have d1: "authenticate stub_libs (stored_record (Str ?x) (Str ?b) ?u) (Str ''abc'') = Inr True"
    and d2: "authenticate stub_libs (stored_record (Str ?x) (Str ?b) ?u) (Str ''abd'')
      = Inr (hashSync stub_libs ''abd'' ?b = Inr ?x)"
    by auto
  from d2 ng have d3: "authenticate stub_libs (stored_record (Str ?x) (Str ?b) ?u) (Str ''abd'')
      = Inr False"
    by simp
  show ?thesis
    using h c1 c3 g d1 d3 by blast
qed

text \<open>
  The claim as stated fails four times. With an empty salt \<^verbatim>\<open>hashPassword\<close> stores the
  plaintext, which \<^verbatim>\<open>compareSync\<close> refuses as a hash: the right password is rejected
  under \<^verbatim>\<open>'bcrypt'\<close>. So is the empty password under any salt: what is stored for it is
  the empty string. No derivation of fixed output length rejects every other
  password under \<^verbatim>\<open>'crypto'\<close>. And no bcrypt with hashes of 60 characters, a salt it
  takes, and a \<^verbatim>\<open>compareSync\<close> that accepts a password against its own hash rejects
  every other password under \<^verbatim>\<open>'bcrypt'\<close>.
\<close>

theorem verify_roundtrip_counterexample:
  "(\<not> (\<exists>L. bcrypt_rejects_malformed L \<and>
        (\<forall>p s a h. a \<in> {Str ''crypto'', Str ''bcrypt''} \<longrightarrow>
            hashPassword L (Str p) (Str s) a = Inr h \<longrightarrow>
            authenticate L (stored_record h (Str s) a) (Str p) = Inr True))) \<and>
   (\<not> (\<exists>L. bcrypt_rejects_malformed L \<and>
        (\<forall>s h. hashPassword L (Str []) (Str s) (Str ''bcrypt'') = Inr h \<longrightarrow>
            authenticate L (stored_record h (Str s) (Str ''bcrypt'')) (Str []) = Inr True))) \<and>
   (\<not> (\<exists>L. kdf_fixed_length L \<and>
        (\<forall>p p' s h. p' \<noteq> p \<longrightarrow>
            hashPassword L (Str p) (Str s) (Str ''crypto'') = Inr h \<longrightarrow>
            authenticate L (stored_record h (Str s) (Str ''crypto'')) (Str p') = Inr False))) \<and>
   (\<not> (\<exists>L. bcrypt_fixed_length L \<and> bcrypt_accepts_some_salt L \<and> bcrypt_compare_correct L \<and>
        (\<forall>p p' s h. p' \<noteq> p \<longrightarrow>
            hashPassword L (Str p) (Str s) (Str ''bcrypt'') = Inr h \<longrightarrow>
            authenticate L (stored_record h (Str s) (Str ''bcrypt'')) (Str p') = Inr False)))"
proof (intro conjI notI; elim exE conjE)
  fix L
  assume c: "bcrypt_rejects_malformed L"
    and a: "\<forall>p s a h. a \<in> {Str ''crypto'', Str ''bcrypt''} \<longrightarrow>
            hashPassword L (Str p) (Str s) a = Inr h \<longrightarrow>
            authenticate L (stored_record h (Str s) a) (Str p) = Inr True"
  have "hashPassword L (Str ''a'') (Str []) (Str ''bcrypt'') = Inr (Str ''a'')"
    by (simp add: hashPassword_def)
  with a [rule_format, of "Str ''bcrypt''" "''a''" "[]" "Str ''a''"]
  have "authenticate L (stored_record (Str ''a'') (Str []) (Str ''bcrypt'')) (Str ''a'')
      = Inr True"
    by simp
  moreover have "compareSync L (Str ''a'') (Str ''a'') = Inr False"
    using c by (simp add: bcrypt_rejects_malformed_def)
  ultimately show False
    by (simp add: authenticate_def stored_record_def)
next
  fix L
  assume c: "bcrypt_rejects_malformed L"
    and a: "\<forall>s h. hashPassword L (Str []) (Str s) (Str ''bcrypt'') = Inr h \<longrightarrow>
            authenticate L (stored_record h (Str s) (Str ''bcrypt'')) (Str []) = Inr True"
  have "hashPassword L (Str []) (Str ''x'') (Str ''bcrypt'') = Inr (Str [])"
    by (simp add: hashPassword_def)
  with a [rule_format, of "''x''" "Str []"]
  have "authenticate L (stored_record (Str []) (Str ''x'') (Str ''bcrypt'')) (Str [])
      = Inr True"
    by simp
  moreover have "compareSync L (Str []) (Str []) = Inr False"
    using c by (simp add: bcrypt_rejects_malformed_def)
  ultimately show False
    by (simp add: authenticate_def stored_record_def)
next
  fix L
  assume c: "kdf_fixed_length L"
    and a: "\<forall>p p' s h. p' \<noteq> p \<longrightarrow>
            hashPassword L (Str p) (Str s) (Str ''crypto'') = Inr h \<longrightarrow>
            authenticate L (stored_record h (Str s) (Str ''crypto'')) (Str p') = Inr False"
  let ?f = "\<lambda>p. toString_base64 L
      (pbkdf2Sync L p (Buffer_from_base64 L ''x'') 10000 64 ''sha512'')"
  obtain p p' where pp: "p \<noteq> p'" "p \<noteq> []" "p' \<noteq> []" "?f p = ?f p'"
    using kdf_collision [OF c] by blast
  have hp: "hashPassword L (Str p) (Str ''x'') (Str ''crypto'') = Inr (Str (?f p))"
    using pp by (simp add: hashPassword_def)
  have "authenticate L (stored_record (Str (?f p)) (Str ''x'') (Str ''crypto'')) (Str p')
      = Inr False"
    using a [rule_format, of p' p "''x''" "Str (?f p)"] pp(1) hp by simp
  moreover have "authenticate L (stored_record (Str (?f p)) (Str ''x'') (Str ''crypto'')) (Str p')
      = Inr True"
    using pp by (simp add: authenticate_def stored_record_def hashPassword_def)
  ultimately show False by simp
next
  fix L
  assume f: "bcrypt_fixed_length L" and e: "bcrypt_accepts_some_salt L"
    and c: "bcrypt_compare_correct L"
    and a: "\<forall>p p' s h. p' \<noteq> p \<longrightarrow>
            hashPassword L (Str p) (Str s) (Str ''bcrypt'') = Inr h \<longrightarrow>
            authenticate L (stored_record h (Str s) (Str ''bcrypt'')) (Str p') = Inr False"
  from e obtain s where s: "s \<noteq> []" "\<forall>p. \<exists>h. hashSync L p s = Inr h"
    unfolding bcrypt_accepts_some_salt_def by blast
  obtain p p' x where pp: "p \<noteq> p'" "p \<noteq> []" "p' \<noteq> []"
      "hashSync L p s = Inr x" "hashSync L p' s = Inr x"
    using bcrypt_collision [OF f s(2)] by blast
  have hp: "hashPassword L (Str p) (Str s) (Str ''bcrypt'') = Inr (Str x)"
    using pp s(1) by (simp add: hashPassword_def)
  have "authenticate L (stored_record (Str x) (Str s) (Str ''bcrypt'')) (Str p') = Inr False"
    using a [rule_format, of p' p s "Str x"] pp(1) hp by simp
  moreover have "compareSync L (Str p') (Str x) = Inr True"
    using c pp(5) by (simp add: bcrypt_compare_correct_def)
  ultimately show False
    by (simp add: authenticate_def stored_record_def)
qed

text \<open>
  C2: on a record with no credential (the schema defaults: empty password, no salt,
  \<^verbatim>\<open>'crypto'\<close>) \<^verbatim>\<open>authenticate\<close> accepts the empty candidate, whatever the libraries do.
\<close>

theorem authenticate_unset_credential:
  "authenticate L schema_defaults (Str []) = Inr True"
  by (simp add: authenticate_def schema_defaults_def hashPassword_def)

text \<open>
  The other branch does refuse it: under \<^verbatim>\<open>'bcrypt'\<close> the empty stored password is not
  a hash, and every candidate string is rejected.
\<close>

lemma bcrypt_refuses_unset_credential:
  "bcrypt_rejects_malformed L \<Longrightarrow>
   authenticate L (schema_defaults\<lparr>enctype := Str ''bcrypt''\<rparr>) (Str c) = Inr False"
  by (simp add: authenticate_def schema_defaults_def bcrypt_rejects_malformed_def)

text \<open>
  C7: for every algorithm tag, \<^verbatim>\<open>hashPassword\<close> hashes nothing and returns its
  password argument unchanged when the password or the salt is absent or empty.
\<close>

theorem hashPassword_noop:
  "\<not> truthy pw \<or> \<not> truthy slt \<Longrightarrow> hashPassword L pw slt tag = Inr pw"
  by (auto simp: hashPassword_def)

theorem hashPassword_noop_witness:
  "\<not> truthy Undefined \<and>
   (\<forall>L. hashPassword L (Str ''secret'') Undefined (Str ''bcrypt'') = Inr (Str ''secret''))"
  using hashPassword_noop [of "Str ''secret''" Undefined _ "Str ''bcrypt''"] by simp

subsection \<open>Validators\<close>

text \<open>
  C10: \<^verbatim>\<open>validateLocalStrategyProperty\<close> returns true for every input, so the
  first-name and last-name validations built on it report their message for no value,
  the empty string included.
\<close>

theorem name_validators_accept_all:
  "validateLocalStrategyProperty v = True \<and>
   run_validator name_first_validate v = None \<and>
   run_validator name_last_validate v = None"
  by (simp add: validateLocalStrategyProperty_def run_validator_def
      name_first_validate_def name_last_validate_def)

lemma phone_pattern_examples:
  "phone_pattern ''+15551234567''" "\<not> phone_pattern ''abc''" "\<not> phone_pattern ''+0555''"
  by simp_all

lemma phone_validator_bound_to_document:
  "\<not> validateLocalStrategyPhone_in [''provider'' \<mapsto> Str ''local''] ''abc''"
  by (simp add: validateLocalStrategyPhone_in_def get_prop_def)

text \<open>
  C8: the guard of \<^verbatim>\<open>validateLocalStrategyPhone\<close> reads \<^verbatim>\<open>provider\<close> and \<^verbatim>\<open>updated\<close>
  from the module's \<^verbatim>\<open>this\<close>, not from the document, so the function returns true for
  every phone string and the validation reports its message for none.
\<close>

theorem validateLocalStrategyPhone_always:
  "validateLocalStrategyPhone ph = True \<and> run_validator phone_validate ph = None"
  by (simp add: validateLocalStrategyPhone_def validateLocalStrategyPhone_in_def
      module_this_def get_prop_def run_validator_def phone_validate_def)

subsection \<open>Password policy at validation\<close>

lemma join_contains: "e \<in> set es \<Longrightarrow> \<exists>a b. join sep es = a @ e @ b"
proof (induction sep es rule: join.induct)
  case (1 sep)
  then show ?case by simp
next
  case (2 sep x)
  then have "join sep [x] = [] @ e @ []" by simp
  then show ?case by blast
next
  case (3 sep x y ys)
  show ?case
  proof (cases "e = x")
    case True
    then have "join sep (x # y # ys) = [] @ e @ (sep @ join sep (y # ys))" by simp
    then show ?thesis by blast
  next
    case False
    with 3 obtain a b where "join sep (y # ys) = a @ e @ b" by auto
    then have "join sep (x # y # ys) = (x @ sep @ a) @ e @ b" by simp
    then show ?thesis by blast
  qed
qed

text \<open>
  C3 (as amended): the strength test decides the validation exactly when the provider is
  \<^verbatim>\<open>'local'\<close>, the password is non-empty and the path is modified. When it fails, the
  \<^verbatim>\<open>password\<close> path carries one message that contains every reported message, the hook
  leaves password, salt and tag as they were, and the save is refused with the store
  unchanged.
\<close>

theorem pre_validate_policy:
  "password doc = Str pw \<Longrightarrow> validationErrors doc = [] \<Longrightarrow>
   (validationErrors (pre_validate L doc) \<noteq> [] \<longleftrightarrow>
      provider doc = Str ''local'' \<and> pw \<noteq> [] \<and> isModified doc ''password'' \<and>
      errors (owasp_test L pw) \<noteq> []) \<and>
   (validationErrors (pre_validate L doc) \<noteq> [] \<longrightarrow>
      validationErrors (pre_validate L doc)
        = [(''password'', join '' '' (errors (owasp_test L pw)))] \<and>
      (\<forall>e \<in> set (errors (owasp_test L pw)).
         \<exists>a b. join '' '' (errors (owasp_test L pw)) = a @ e @ b) \<and>
      password (pre_validate L doc) = password doc \<and>
      salt (pre_validate L doc) = salt doc \<and>
      enctype (pre_validate L doc) = enctype doc \<and>
      save L R stored doc
        = (Inl (ValidationError [(''password'', join '' '' (errors (owasp_test L pw)))]), stored))"
proof -
  assume p: "password doc = Str pw" and v: "validationErrors doc = []"
  let ?c = "provider doc = Str ''local'' \<and> pw \<noteq> [] \<and> isModified doc ''password'' \<and>
      errors (owasp_test L pw) \<noteq> []"
  let ?m = "join '' '' (errors (owasp_test L pw))"
  have yes: "pre_validate L doc = invalidate doc ''password'' ?m" if ?c
    using that p by (simp add: pre_validate_def Let_def)
  have no: "pre_validate L doc = doc" if "\<not> ?c"
    using that p by (auto simp: pre_validate_def Let_def)
  have iff: "validationErrors (pre_validate L doc) \<noteq> [] \<longleftrightarrow> ?c"
    using yes no v by (cases ?c) (simp_all add: invalidate_def)
  have rest: "validationErrors (pre_validate L doc) = [(''password'', ?m)] \<and>
      (\<forall>e \<in> set (errors (owasp_test L pw)). \<exists>a b. ?m = a @ e @ b) \<and>
      password (pre_validate L doc) = password doc \<and>
      salt (pre_validate L doc) = salt doc \<and>
      enctype (pre_validate L doc) = enctype doc \<and>
      save L R stored doc = (Inl (ValidationError [(''password'', ?m)]), stored)"
    if "validationErrors (pre_validate L doc) \<noteq> []"
  proof -
    from that iff have c: ?c by blast
    have e: "validationErrors (pre_validate L doc) = [(''password'', ?m)]"
      using yes [OF c] v by (simp add: invalidate_def)
    have "save L R stored doc = (Inl (ValidationError [(''password'', ?m)]), stored)"
      using e by (simp add: save_def Let_def)
    moreover have "\<forall>e \<in> set (errors (owasp_test L pw)). \<exists>a b. ?m = a @ e @ b"
      using join_contains by blast
    ultimately show ?thesis
      using e yes [OF c] by (simp add: invalidate_def)
  qed
  show ?thesis
    using iff rest by blast
qed

theorem pre_validate_policy_witness:
  "validationErrors
     (pre_validate stub_libs
        (schema_defaults\<lparr>provider := Str ''local'', password := Str ''aaa'',
           modifiedPaths := [''password'']\<rparr>))
     = [(''password'', ''The password must be at least 10 characters long.'')] \<and>
   save stub_libs stub_random schema_defaults
     (schema_defaults\<lparr>provider := Str ''local'', password := Str ''aaa'',
        modifiedPaths := [''password'']\<rparr>)
     = (Inl (ValidationError
          [(''password'', ''The password must be at least 10 characters long.'')]),
        schema_defaults)"
proof -
  let ?d = "schema_defaults\<lparr>provider := Str ''local'', password := Str ''aaa'',
        modifiedPaths := [''password'']\<rparr>"
  have p: "password ?d = Str ''aaa''" and v: "validationErrors ?d = []"
    by (simp_all add: schema_defaults_def)
  have c: "provider ?d = Str ''local''" "isModified ?d ''password''"
    by (simp_all add: isModified_def)
  have e: "errors (owasp_test stub_libs ''aaa'')
      = [''The password must be at least 10 characters long.'']"
    by (simp add: stub_libs_def stub_owasp_def Let_def)
  show ?thesis
    using pre_validate_policy [OF p v, of stub_libs stub_random schema_defaults] c e
    by simp
qed

text \<open>
  The claim as stated fails: a local record whose password is changed to the empty
  string is not tested, although the strength test reports errors for the empty string.
\<close>

theorem pre_validate_policy_counterexample:
  "\<not> (\<exists>L. errors (owasp_test L []) \<noteq> [] \<and>
        (\<forall>doc pw. password doc = Str pw \<longrightarrow> validationErrors doc = [] \<longrightarrow>
            (validationErrors (pre_validate L doc) \<noteq> [] \<longleftrightarrow>
               provider doc = Str ''local'' \<and> isModified doc ''password'' \<and>
               errors (owasp_test L pw) \<noteq> [])))"
proof (intro notI; elim exE conjE)
  fix L
  assume e: "errors (owasp_test L []) \<noteq> []"
    and a: "\<forall>doc pw. password doc = Str pw \<longrightarrow> validationErrors doc = [] \<longrightarrow>
            (validationErrors (pre_validate L doc) \<noteq> [] \<longleftrightarrow>
               provider doc = Str ''local'' \<and> isModified doc ''password'' \<and>
               errors (owasp_test L pw) \<noteq> [])"
  let ?d = "schema_defaults\<lparr>provider := Str ''local'', password := Str [],
        modifiedPaths := [''password'']\<rparr>"
  have "validationErrors (pre_validate L ?d) = []"
    by (simp add: pre_validate_def schema_defaults_def)
  moreover have "validationErrors (pre_validate L ?d) \<noteq> []"
    using a [rule_format, of ?d "[]"] e by (simp add: schema_defaults_def isModified_def)
  ultimately show False by simp
qed

subsection \<open>Hashing at save\<close>

lemma pre_save_crypto_tag:
  assumes "truthy (password doc)" "isModified doc ''password''" "enctype doc \<noteq> Str ''bcrypt''"
  shows "\<exists>d. pre_save L R doc = Inr d \<and> enctype d = Str ''crypto''"
proof -
  obtain v where "hashPassword L (password doc) (Str (toString_base64 L (randomBytes R 16)))
      (Str ''crypto'') = Inr v"
    using hashPassword_crypto_total [of "Str ''crypto''" L "password doc"] by blast
  then show ?thesis
    using assms by (simp add: pre_save_def Let_def)
qed

text \<open>
  C6 (as amended): on a save that changes a non-empty password, with non-empty draws,
  the hook takes the drawn salt of the record's tag and stores the hash of the plaintext
  under it: for \<^verbatim>\<open>'bcrypt'\<close> the salt of \<^verbatim>\<open>genSaltSync\<close> and the result of \<^verbatim>\<open>hashSync\<close>
  (whose error, if any, is the hook's); for every other tag, an absent one included,
  16 random bytes in base64, the PBKDF2 value, and the tag \<^verbatim>\<open>'crypto'\<close>.
\<close>

theorem pre_save_hashes:
  "password doc = Str pw \<Longrightarrow> pw \<noteq> [] \<Longrightarrow> isModified doc ''password'' \<Longrightarrow>
   (enctype doc = Str ''bcrypt'' \<and> genSaltSync R \<noteq> [] \<longrightarrow>
      pre_save L R doc =
        (case hashSync L pw (genSaltSync R) of
           Inl e \<Rightarrow> Inl e
         | Inr h \<Rightarrow> Inr (doc\<lparr>salt := Str (genSaltSync R), password := Str h\<rparr>))) \<and>
   (enctype doc \<noteq> Str ''bcrypt'' \<and> toString_base64 L (randomBytes R 16) \<noteq> [] \<longrightarrow>
      pre_save L R doc =
        Inr (doc\<lparr>salt := Str (toString_base64 L (randomBytes R 16)),
                 enctype := Str ''crypto'',
                 password := Str (toString_base64 L
                   (pbkdf2Sync L pw (Buffer_from_base64 L (toString_base64 L (randomBytes R 16)))
                      10000 64 ''sha512''))\<rparr>))"
  by (auto simp: pre_save_def hashPassword_def Let_def split: sum.splits)

theorem pre_save_hashes_witness:
  "pre_save stub_libs stub_random
     (schema_defaults\<lparr>password := Str ''Abc123!@#xyz'', enctype := Str ''bcrypt'',
        modifiedPaths := [''password'']\<rparr>)
   = Inr (schema_defaults\<lparr>password := Str ''Abc123!@#xyz'', enctype := Str ''bcrypt'',
        modifiedPaths := [''password''],
        salt := Str ''$2a$10$abcdefghijklmnopqrstuv'',
        password := Str ''$2a$10$abcdefghijklmnopqrstuvAbc123!@#xyz...................''\<rparr>) \<and>
   pre_save stub_libs stub_random
     (schema_defaults\<lparr>password := Str ''Abc123!@#xyz'', enctype := Undefined,
        modifiedPaths := [''password'']\<rparr>)
   = Inr (schema_defaults\<lparr>password := Str ''Abc123!@#xyz'', enctype := Undefined,
        modifiedPaths := [''password''],
        salt := Str (toString_base64 stub_libs (randomBytes stub_random 16)),
        enctype := Str ''crypto'',
        password := Str (toString_base64 stub_libs
          (pbkdf2Sync stub_libs ''Abc123!@#xyz''
             (Buffer_from_base64 stub_libs (toString_base64 stub_libs (randomBytes stub_random 16)))
             10000 64 ''sha512''))\<rparr>)"
proof -
  let ?b = "schema_defaults\<lparr>password := Str ''Abc123!@#xyz'', enctype := Str ''bcrypt'',
        modifiedPaths := [''password'']\<rparr>"
  let ?u = "schema_defaults\<lparr>password := Str ''Abc123!@#xyz'', enctype := Undefined,
        modifiedPaths := [''password'']\<rparr>"
  have pb: "password ?b = Str ''Abc123!@#xyz''" and pu: "password ?u = Str ''Abc123!@#xyz''"
    by simp_all
  have ne: "''Abc123!@#xyz'' \<noteq> []"
    by simp
  have mb: "isModified ?b ''password''" and mu: "isModified ?u ''password''"
    by (simp_all add: isModified_def)
  have g: "genSaltSync stub_random = ''$2a$10$abcdefghijklmnopqrstuv''"
    by (simp add: stub_random_def)
  then have gs: "genSaltSync stub_random \<noteq> []"
    by simp
  have "length (toString_base64 stub_libs (randomBytes stub_random 16)) = 24"
    using stub_kdf_fixed_length by (simp add: kdf_fixed_length_def stub_random_def)
  then have rs: "toString_base64 stub_libs (randomBytes stub_random 16) \<noteq> []"
    by auto
  have hs: "hashSync stub_libs ''Abc123!@#xyz'' ''$2a$10$abcdefghijklmnopqrstuv''
      = Inr ''$2a$10$abcdefghijklmnopqrstuvAbc123!@#xyz...................''"
    by code_simp
  have tb: "enctype ?b = Str ''bcrypt''" and tu: "enctype ?u \<noteq> Str ''bcrypt''"
    by simp_all
  from pre_save_hashes [OF pb ne mb, of stub_random stub_libs] tb gs hs g
  have 1: "pre_save stub_libs stub_random ?b
      = Inr (?b\<lparr>salt := Str ''$2a$10$abcdefghijklmnopqrstuv'',
          password := Str ''$2a$10$abcdefghijklmnopqrstuvAbc123!@#xyz...................''\<rparr>)"
    by simp
  from pre_save_hashes [OF pu ne mu, of stub_random stub_libs] tu rs
  have 2: "pre_save stub_libs stub_random ?u
      = Inr (?u\<lparr>salt := Str (toString_base64 stub_libs (randomBytes stub_random 16)),
        enctype := Str ''crypto'',
        password := Str (toString_base64 stub_libs
          (pbkdf2Sync stub_libs ''Abc123!@#xyz''
             (Buffer_from_base64 stub_libs (toString_base64 stub_libs (randomBytes stub_random 16)))
             10000 64 ''sha512''))\<rparr>)"
    by blast
  show ?thesis
    using 1 2 by blast
qed

text \<open>
  The claim as stated fails in its last part: the hook reads no deployment setting. A
  record saved without a tag is hashed and tagged \<^verbatim>\<open>'crypto'\<close>, so no deployment
  gets \<^verbatim>\<open>'bcrypt'\<close> as its default.
\<close>

theorem pre_save_default_counterexample:
  "\<not> (\<forall>configured \<in> {Str ''crypto'', Str ''bcrypt''}. \<forall>L R d.
        pre_save L R (schema_defaults\<lparr>password := Str ''Abc123!@#xyz'', enctype := Undefined,
          modifiedPaths := [''password'']\<rparr>) = Inr d \<longrightarrow> enctype d = configured)"
proof
  let ?doc = "schema_defaults\<lparr>password := Str ''Abc123!@#xyz'', enctype := Undefined,
          modifiedPaths := [''password'']\<rparr>"
  assume a: "\<forall>configured \<in> {Str ''crypto'', Str ''bcrypt''}. \<forall>L R d.
        pre_save L R ?doc = Inr d \<longrightarrow> enctype d = configured"
  obtain d where d: "pre_save stub_libs stub_random ?doc = Inr d" "enctype d = Str ''crypto''"
    using pre_save_crypto_tag [of ?doc stub_libs stub_random]
    by (auto simp: schema_defaults_def isModified_def)
  from a [rule_format, of "Str ''bcrypt''" stub_libs stub_random d] d
  show False by simp
qed

subsection \<open>Passphrase generation\<close>

lemma set_replace_runs: "set (replace_runs s) \<subseteq> set s"
proof (induction s rule: replace_runs.induct)
  case 1
  then show ?case by simp
next
  case (2 c cs)
  have "set (dropWhile (\<lambda>x. x = c) cs) \<subseteq> set cs"
    by (auto dest: set_dropWhileD)
  with 2 show ?case by auto
qed

lemma no_match_no_triple:
  "run_end s = None \<Longrightarrow> list_all (\<lambda>c. \<not> is_line_terminator c) s \<Longrightarrow> \<not> has_triple s"
  by (induction s rule: has_triple.induct) (auto split: if_splits)

lemma regex_test_zero: "fst (regex_test 0 s) = (run_end s \<noteq> None)"
  by (simp add: regex_test_def split: option.splits)

text \<open>
  Partial correctness of the loop, entered with \<^verbatim>\<open>lastIndex\<close> at 0 (as the source enters
  it, and as \<^verbatim>\<open>replace\<close> leaves it for every later round): what it returns is 20 long
  or more, has no match of the pattern, and is the starting string or a stripped draw.
\<close>

lemma passphrase_loop_result:
  assumes "passphrase_loop gen i pw li = Some r" and "li = 0"
  shows "20 \<le> length r \<and> run_end r = None \<and> (r = pw \<or> (\<exists>j. r = replace_runs (gen j)))"
proof -
  let ?P = "\<lambda>gen i pw li r. li = (0::nat) \<longrightarrow>
      20 \<le> length r \<and> run_end r = None \<and> (r = pw \<or> (\<exists>j. r = replace_runs (gen j)))"
  have "?P gen i pw li r"
  proof (rule passphrase_loop.raw_induct [where P = ?P, OF _ assms(1)])
    fix loop :: "(nat \<Rightarrow> string) \<Rightarrow> nat \<Rightarrow> string \<Rightarrow> nat \<Rightarrow> string option"
    fix gen i pw li r
    assume IH: "\<And>gen i pw li r. loop gen i pw li = Some r \<Longrightarrow> ?P gen i pw li r"
      and body: "(if length pw < 20 \<or> fst (regex_test li pw)
                  then loop gen (Suc i) (replace_runs (gen i)) 0 else Some pw) = Some r"
    show "?P gen i pw li r"
    proof (cases "length pw < 20 \<or> fst (regex_test li pw)")
      case True
      with body have "loop gen (Suc i) (replace_runs (gen i)) 0 = Some r"
        by simp
      from IH [OF this] show ?thesis
        by blast
    next
      case False
      with body have "r = pw"
        by simp
      with False show ?thesis
        by (auto simp: regex_test_zero)
    qed
  qed
  with assms(2) show ?thesis
    by blast
qed

lemma passphrase_loop_returns_now:
  "20 \<le> length pw \<Longrightarrow> run_end pw = None \<Longrightarrow> passphrase_loop gen i pw 0 = Some pw"
  by (subst passphrase_loop.simps) (simp add: regex_test_zero)

lemma passphrase_loop_step:
  "length pw < 20 \<or> fst (regex_test 0 pw) \<Longrightarrow>
   passphrase_loop gen i pw 0 = passphrase_loop gen (Suc i) (replace_runs (gen i)) 0"
  by (subst passphrase_loop.simps) simp

text \<open>The loop returns as soon as one draw, stripped, is long enough and has no match left.\<close>

lemma passphrase_loop_returns:
  assumes "20 \<le> length (replace_runs (gen k))" "run_end (replace_runs (gen k)) = None"
  shows "i \<le> k \<Longrightarrow> \<exists>r. passphrase_loop gen i pw 0 = Some r"
proof (induction "k - i" arbitrary: i pw)
  case 0
  then have ik: "i = k" by simp
  show ?case
  proof (cases "length pw < 20 \<or> fst (regex_test 0 pw)")
    case True
    then have "passphrase_loop gen i pw 0 = passphrase_loop gen (Suc i) (replace_runs (gen i)) 0"
      by (rule passphrase_loop_step)
    also have "\<dots> = Some (replace_runs (gen k))"
      using assms ik by (simp add: passphrase_loop_returns_now)
    finally show ?thesis by blast
  next
    case False
    then have "passphrase_loop gen i pw 0 = Some pw"
      by (simp add: passphrase_loop_returns_now regex_test_zero)
    then show ?thesis by blast
  qed
next
  case (Suc n)
  then have "n = k - Suc i" "Suc i \<le> k" by simp_all
  from Suc(1) [OF this] obtain r
    where r: "passphrase_loop gen (Suc i) (replace_runs (gen i)) 0 = Some r"
    by blast
  show ?case
  proof (cases "length pw < 20 \<or> fst (regex_test 0 pw)")
    case True
    then have "passphrase_loop gen i pw 0 = passphrase_loop gen (Suc i) (replace_runs (gen i)) 0"
      by (rule passphrase_loop_step)
    with r show ?thesis by simp
  next
    case False
    then have "passphrase_loop gen i pw 0 = Some pw"
      by (simp add: passphrase_loop_returns_now regex_test_zero)
    then show ?thesis by blast
  qed
qed

lemma generateRandomPassphrase_returns:
  assumes "20 \<le> length (replace_runs (gen k))" "run_end (replace_runs (gen k)) = None"
  shows "\<exists>out. generateRandomPassphrase L gen = Some out"
proof -
  obtain r where "passphrase_loop gen 0 [] 0 = Some r"
    using passphrase_loop_returns [of gen k 0 "[]"] assms by blast
  then show ?thesis
    by (simp add: generateRandomPassphrase_def)
qed

text \<open>
  C4: whatever \<^verbatim>\<open>generateRandomPassphrase\<close> resolves with has length 20 or more, no three
  equal characters in a row (the draws holding no line terminator), and no error from
  the strength test, hence none of its required tests when the test reports those
  among its errors; and when the string that leaves the loop fails the strength test,
  the promise is rejected with the generation error: no further round, no weak result.
\<close>

theorem generateRandomPassphrase_result:
  "generateRandomPassphrase L gen = Some out \<Longrightarrow>
   \<forall>i. list_all (\<lambda>c. \<not> is_line_terminator c) (gen i) \<Longrightarrow>
   (\<forall>pw. out = Inr pw \<longrightarrow>
      20 \<le> length pw \<and> \<not> has_triple pw \<and> errors (owasp_test L pw) = [] \<and>
      (owasp_reports_required L \<longrightarrow> requiredTestErrors (owasp_test L pw) = [])) \<and>
   (\<forall>pw. passphrase_loop gen 0 [] 0 = Some pw \<longrightarrow> errors (owasp_test L pw) \<noteq> [] \<longrightarrow>
      out = Inl (Error ''An unexpected problem occured while generating the random passphrase''))"
proof -
  assume out: "generateRandomPassphrase L gen = Some out"
    and gen: "\<forall>i. list_all (\<lambda>c. \<not> is_line_terminator c) (gen i)"
  from out obtain r where r: "passphrase_loop gen 0 [] 0 = Some r"
    by (auto simp: generateRandomPassphrase_def split: option.splits)
  from passphrase_loop_result [OF r refl]
  have len: "20 \<le> length r" and nomatch: "run_end r = None"
    and src: "r = [] \<or> (\<exists>j. r = replace_runs (gen j))"
    by simp_all
  from len src obtain j where j: "r = replace_runs (gen j)"
    by auto
  have "set r \<subseteq> set (gen j)"
    unfolding j by (rule set_replace_runs)
  with gen have "list_all (\<lambda>c. \<not> is_line_terminator c) r"
    by (auto simp: list_all_iff)
  with nomatch have triple: "\<not> has_triple r"
    by (rule no_match_no_triple)
  have o: "out = (if errors (owasp_test L r) \<noteq> []
      then Inl (Error ''An unexpected problem occured while generating the random passphrase'')
      else Inr r)"
    using out r by (simp add: generateRandomPassphrase_def)
  have req: "requiredTestErrors (owasp_test L r) = []"
    if "owasp_reports_required L" "errors (owasp_test L r) = []"
  proof -
    from that(1) have "set (requiredTestErrors (owasp_test L r)) \<subseteq> set (errors (owasp_test L r))"
      unfolding owasp_reports_required_def by blast
    with that(2) show ?thesis by simp
  qed
  show ?thesis
    using o r len triple req by (auto split: if_splits)
qed

theorem generateRandomPassphrase_result_witness:
  "generateRandomPassphrase stub_libs
     (\<lambda>i. if i = 0 then ''aaabcd'' else ''abcdefghjkmnpqrstuvwxyz23'')
     = Some (Inr ''abcdefghjkmnpqrstuvwxyz23'') \<and>
   20 \<le> length ''abcdefghjkmnpqrstuvwxyz23'' \<and>
   \<not> has_triple ''abcdefghjkmnpqrstuvwxyz23'' \<and>
   errors (owasp_test stub_libs ''abcdefghjkmnpqrstuvwxyz23'') = []"
proof -
  let ?gen = "\<lambda>i::nat. if i = 0 then ''aaabcd'' else ''abcdefghjkmnpqrstuvwxyz23''"
  let ?pw = "''abcdefghjkmnpqrstuvwxyz23''"
  have lt: "\<forall>i. list_all (\<lambda>c. \<not> is_line_terminator c) (?gen i)"
    by (simp add: is_line_terminator_def)
  have s0: "replace_runs (?gen 0) = ''bcd''"
    by (simp add: is_line_terminator_def)
  have s1: "replace_runs (?gen 1) = ?pw"
    by (simp add: is_line_terminator_def)
  have e1: "run_end ?pw = None"
    by (simp add: is_line_terminator_def)
  have "passphrase_loop ?gen 0 [] 0 = passphrase_loop ?gen 1 ''bcd'' 0"
    using passphrase_loop_step [of "[]" ?gen 0] s0 by simp
  also have "\<dots> = passphrase_loop ?gen 2 ?pw 0"
    using passphrase_loop_step [of "''bcd''" ?gen 1] s1 by (simp add: numeral_2_eq_2)
  also have "\<dots> = Some ?pw"
    using e1 by (simp add: passphrase_loop_returns_now)
  finally have loop: "passphrase_loop ?gen 0 [] 0 = Some ?pw" .
  have ow: "errors (owasp_test stub_libs ?pw) = []"
    by (simp add: stub_libs_def stub_owasp_def Let_def)
  have r: "generateRandomPassphrase stub_libs ?gen = Some (Inr ?pw)"
    using loop ow by (simp add: generateRandomPassphrase_def)
  show ?thesis
    using generateRandomPassphrase_result [OF r lt] r by simp
qed

subsection \<open>Reconciling the TTL index\<close>

lemma index_name_created_at: "index_name [(''created_at'', 1)] = ''created_at_1''"
  by (simp add: index_name_def)

lemma isEqual_filterExpression: "isEqual filterExpression filterExpression"
  by (simp add: isEqual_def filterExpression_def)

lemma new_rule_facts:
  "is_rule (new_rule t)" "occupies (new_rule t)" "\<not> is_outdated t (new_rule t)"
  "expireAfterSeconds (new_rule t) = Some t" "name (new_rule t) = ''created_at_1''"
  by (simp_all add: is_rule_def new_rule_def occupies_def is_outdated_def isEqual_filterExpression)

lemma is_rule_occupies: "is_rule i \<Longrightarrow> occupies i"
  by (simp add: is_rule_def occupies_def)

text \<open>What \<^verbatim>\<open>createIndex\<close> leaves: the catalogue itself when the place is occupied
  (the same index, or a refusal), the catalogue with the new rule otherwise.\<close>

lemma create_occupied:
  assumes "\<exists>i \<in> set st. occupies i"
  shows "unobserved st (collection_createIndex st [(''created_at'', 1)] t filterExpression) = st"
proof -
  obtain y where "find (\<lambda>i. name i = ''created_at_1'' \<or> key i = [(''created_at'', 1)]) st = Some y"
    using assms
    by (cases "find (\<lambda>i. name i = ''created_at_1'' \<or> key i = [(''created_at'', 1)]) st")
      (auto simp: find_None_iff occupies_def)
  then show ?thesis
    by (simp add: collection_createIndex_def index_name_created_at unobserved_def)
qed

lemma create_free:
  assumes "\<forall>i \<in> set st. \<not> occupies i"
  shows "unobserved st (collection_createIndex st [(''created_at'', 1)] t filterExpression)
     = st @ [new_rule t]"
proof -
  have "find (\<lambda>i. name i = ''created_at_1'' \<or> key i = [(''created_at'', 1)]) st = None"
    using assms by (auto simp: find_None_iff occupies_def)
  then show ?thesis
    by (simp add: collection_createIndex_def index_name_created_at new_rule_def unobserved_def)
qed

lemma reconcile_nothing_outdated:
  assumes "validate c" "0 < ttl c" "\<forall>i \<in> set st. \<not> is_outdated (ttl c) i"
  shows "createEmailTTLIndex eff c st
     = unobserved st (collection_createIndex st [(''created_at'', 1)] (ttl c) filterExpression)"
proof -
  have "find (is_outdated (ttl c)) st = None"
    using assms(3) by (simp add: find_None_iff)
  then show ?thesis
    using assms(1,2) by (simp add: createEmailTTLIndex_def Let_def)
qed

lemma rule_unique:
  assumes "prior_state t st" "x \<in> set st" "y \<in> set st" "is_rule x" "is_rule y"
  shows "x = y"
proof -
  have "length (filter is_rule st) \<le> 1"
    using assms(1) by (simp add: prior_state_def)
  moreover have "x \<in> set (filter is_rule st)" "y \<in> set (filter is_rule st)"
    using assms by simp_all
  ultimately show ?thesis
    by (cases "filter is_rule st") (auto split: if_splits)
qed

lemma prior_state_only_rules:
  assumes "prior_state t st" "i \<in> set st" "occupies i \<or> is_outdated t i"
  shows "is_rule i"
  using assms by (auto simp: prior_state_def list_all_iff)

text \<open>A catalogue that ends with the new rule, after indexes that neither occupy its
  place nor are outdated: one rule, the others as they were, and nothing more to do.\<close>

lemma settled:
  assumes "validate c" "0 < ttl c"
    and "\<forall>i \<in> set ys. \<not> occupies i" "\<forall>i \<in> set ys. \<not> is_outdated (ttl c) i"
  shows "filter is_rule (ys @ [new_rule (ttl c)]) = [new_rule (ttl c)]"
    and "filter (\<lambda>i. \<not> is_rule i) (ys @ [new_rule (ttl c)]) = ys"
    and "createEmailTTLIndex eff c (ys @ [new_rule (ttl c)]) = ys @ [new_rule (ttl c)]"
proof -
  have norule: "\<forall>i \<in> set ys. \<not> is_rule i"
    using assms(3) is_rule_occupies by blast
  then have "filter is_rule ys = []" "filter (\<lambda>i. \<not> is_rule i) ys = ys"
    by (simp_all add: filter_empty_conv filter_id_conv)
  then show "filter is_rule (ys @ [new_rule (ttl c)]) = [new_rule (ttl c)]"
    and "filter (\<lambda>i. \<not> is_rule i) (ys @ [new_rule (ttl c)]) = ys"
    by (simp_all add: new_rule_facts)
  have "\<forall>i \<in> set (ys @ [new_rule (ttl c)]). \<not> is_outdated (ttl c) i"
    using assms(4) by (simp add: new_rule_facts)
  from reconcile_nothing_outdated [OF assms(1,2) this]
  show "createEmailTTLIndex eff c (ys @ [new_rule (ttl c)]) = ys @ [new_rule (ttl c)]"
    by (simp add: create_occupied new_rule_facts)
qed

lemma reconcile_no_rule:
  assumes "validate c" "0 < ttl c" "prior_state (ttl c) st" "filter is_rule st = []"
  shows "createEmailTTLIndex eff c st = st @ [new_rule (ttl c)]"
    and "\<forall>i \<in> set st. \<not> occupies i" and "\<forall>i \<in> set st. \<not> is_outdated (ttl c) i"
proof -
  have norule: "\<forall>i \<in> set st. \<not> is_rule i"
    using assms(4) by (simp add: filter_empty_conv)
  show free: "\<forall>i \<in> set st. \<not> occupies i" and fresh: "\<forall>i \<in> set st. \<not> is_outdated (ttl c) i"
    using norule prior_state_only_rules [OF assms(3)] by blast+
  show "createEmailTTLIndex eff c st = st @ [new_rule (ttl c)]"
    using reconcile_nothing_outdated [OF assms(1,2) fresh] create_free [OF free] by simp
qed

lemma reconcile_current:
  assumes "validate c" "0 < ttl c" "prior_state (ttl c) st" "x \<in> set st" "is_rule x"
    and cur: "expireAfterSeconds x = Some (ttl c)"
  shows "createEmailTTLIndex eff c st = st"
proof -
  have "\<not> is_outdated (ttl c) i" if "i \<in> set st" for i
  proof
    assume o: "is_outdated (ttl c) i"
    then have "is_rule i"
      using prior_state_only_rules [OF assms(3) that] by blast
    then have "i = x"
      using rule_unique [OF assms(3) that assms(4)] assms(5) by blast
    with o cur show False
      by (simp add: is_outdated_def)
  qed
  then have "\<forall>i \<in> set st. \<not> is_outdated (ttl c) i"
    by blast
  from reconcile_nothing_outdated [OF assms(1,2) this] show ?thesis
    using create_occupied [of st] assms(4,5) is_rule_occupies by auto
qed

lemma reconcile_stale:
  assumes "validate c" "0 < ttl c" "prior_state (ttl c) st" "x \<in> set st" "is_rule x"
    and stale: "expireAfterSeconds x \<noteq> Some (ttl c)"
  shows "createEmailTTLIndex AsIssued c st = filter (\<lambda>i. \<not> is_rule i) st @ [new_rule (ttl c)]"
    and "\<forall>i \<in> set (filter (\<lambda>i. \<not> is_rule i) st). \<not> occupies i"
    and "\<forall>i \<in> set (filter (\<lambda>i. \<not> is_rule i) st). \<not> is_outdated (ttl c) i"
    and "is_outdated (ttl c) x"
proof -
  let ?ys = "filter (\<lambda>i. \<not> is_rule i) st"
  have only: "i = x" if "i \<in> set st" "is_rule i" for i
    using rule_unique [OF assms(3) that(1) assms(4) that(2) assms(5)] .
  have "startsWith (name x) ''created_at''"
    using assms(3,4,5) stale by (auto simp: prior_state_def list_all_iff)
  then show ox: "is_outdated (ttl c) x"
    using assms(5) stale by (simp add: is_outdated_def is_rule_def)
  then obtain y where y: "find (is_outdated (ttl c)) st = Some y"
    using assms(4) by (cases "find (is_outdated (ttl c)) st") (auto simp: find_None_iff)
  then have "y \<in> set st" "is_outdated (ttl c) y"
    by (auto simp: find_Some_iff)
  then have yx: "y = x"
    using only prior_state_only_rules [OF assms(3)] by blast
  have inj: "inj_on name (set st)"
    using assms(3) by (simp add: prior_state_def distinct_map)
  have "name i \<noteq> name x \<longleftrightarrow> \<not> is_rule i" if "i \<in> set st" for i
    using that only [OF that] inj assms(4,5) by (auto dest: inj_onD)
  then have "filter (\<lambda>i. name i \<noteq> name x) st = ?ys"
    by (auto intro: filter_cong)
  then have d: "unobserved st (collection_dropIndex st (name x)) = ?ys"
    using assms(4) by (simp add: collection_dropIndex_def unobserved_def)
  show free: "\<forall>i \<in> set ?ys. \<not> occupies i" and "\<forall>i \<in> set ?ys. \<not> is_outdated (ttl c) i"
    using prior_state_only_rules [OF assms(3)] by auto
  show "createEmailTTLIndex AsIssued c st = ?ys @ [new_rule (ttl c)]"
    using assms(1,2) y yx d create_free [OF free]
    by (simp add: createEmailTTLIndex_def Let_def)
qed

text \<open>
  C5 (as amended): with email validation and a positive TTL configured, from a
  catalogue with no rule, with the rule at the configured TTL, or with a rule at
  another TTL whose name starts with \<^verbatim>\<open>created_at\<close>, where nothing but a rule has the
  name \<^verbatim>\<open>created_at_1\<close> or the key, and, when there is something to drop, the store
  applies the drop before the create: the reconciliation leaves exactly one rule, with
  the configured TTL (a stale one is dropped and replaced), keeps the other indexes,
  and running it again, in either order, changes nothing.
\<close>

theorem createEmailTTLIndex_reconciles:
  assumes "validate c" "0 < ttl c" "prior_state (ttl c) st"
    and "eff = AsIssued \<or> list_all (\<lambda>i. \<not> is_outdated (ttl c) i) st"
  shows "(\<exists>r. filter is_rule (createEmailTTLIndex eff c st) = [r] \<and>
            expireAfterSeconds r = Some (ttl c)) \<and>
         filter (\<lambda>i. \<not> is_rule i) (createEmailTTLIndex eff c st) = filter (\<lambda>i. \<not> is_rule i) st \<and>
         (\<forall>again. createEmailTTLIndex again c (createEmailTTLIndex eff c st)
            = createEmailTTLIndex eff c st)"
proof (cases "filter is_rule st")
  case Nil
  note n = reconcile_no_rule [OF assms(1,2,3) Nil]
  have "filter (\<lambda>i. \<not> is_rule i) st = st"
    using Nil by (simp add: filter_empty_conv filter_id_conv)
  then show ?thesis
    using settled [OF assms(1,2) n(2,3)] n(1) [of eff] new_rule_facts(4) by simp
next
  case (Cons x xs)
  then have xs: "xs = []"
    using assms(3) by (simp add: prior_state_def)
  have "x \<in> set (filter is_rule st)"
    using Cons by simp
  then have x: "x \<in> set st" "is_rule x"
    by simp_all
  show ?thesis
  proof (cases "expireAfterSeconds x = Some (ttl c)")
    case True
    have "createEmailTTLIndex e c st = st" for e
      by (rule reconcile_current [OF assms(1,2,3) x True])
    then show ?thesis
      using Cons xs True by simp
  next
    case False
    note s = reconcile_stale [OF assms(1,2,3) x False]
    have "eff = AsIssued"
      using assms(4) s(4) x(1) by (auto simp: list_all_iff)
    then show ?thesis
      using settled [OF assms(1,2) s(2,3)] s(1) new_rule_facts(4) by simp
  qed
qed

theorem createEmailTTLIndex_reconciles_witness:
  "createEmailTTLIndex AsIssued \<lparr>validate = True, ttl = 200\<rparr>
     [\<lparr>name = ''_id_'', key = [(''_id'', 1)], partialFilterExpression = None,
        expireAfterSeconds = None\<rparr>, new_rule 100]
   = [\<lparr>name = ''_id_'', key = [(''_id'', 1)], partialFilterExpression = None,
        expireAfterSeconds = None\<rparr>, new_rule 200] \<and>
   createEmailTTLIndex Reversed \<lparr>validate = True, ttl = 200\<rparr>
     (createEmailTTLIndex AsIssued \<lparr>validate = True, ttl = 200\<rparr>
        [\<lparr>name = ''_id_'', key = [(''_id'', 1)], partialFilterExpression = None,
           expireAfterSeconds = None\<rparr>, new_rule 100])
   = [\<lparr>name = ''_id_'', key = [(''_id'', 1)], partialFilterExpression = None,
        expireAfterSeconds = None\<rparr>, new_rule 200]"
proof -
  let ?c = "\<lparr>validate = True, ttl = 200\<rparr>"
  let ?id = "\<lparr>name = ''_id_'', key = [(''_id'', 1)], partialFilterExpression = None,
        expireAfterSeconds = None\<rparr>"
  have v: "validate ?c" and t: "0 < ttl ?c"
    by simp_all
  have i: "\<not> is_rule ?id" "\<not> occupies ?id" "\<not> is_outdated 200 ?id"
    by (simp_all add: is_rule_def occupies_def is_outdated_def)
  have o: "is_outdated 200 (new_rule 100)"
    by (simp add: is_outdated_def new_rule_def startsWith_def isEqual_filterExpression)
  have n: "?id \<noteq> new_rule 100" "name ?id \<noteq> name (new_rule 100)"
    by (simp_all add: new_rule_def)
  have p: "prior_state (ttl ?c) [?id, new_rule 100]"
    using i o n by (simp add: prior_state_def new_rule_facts startsWith_def)
  have x: "new_rule 100 \<in> set [?id, new_rule 100]"
    "expireAfterSeconds (new_rule 100) \<noteq> Some (ttl ?c)"
    by (simp_all add: new_rule_facts)
  have r: "createEmailTTLIndex AsIssued ?c [?id, new_rule 100] = [?id, new_rule 200]"
    using reconcile_stale(1) [OF v t p x(1) new_rule_facts(1) x(2)] i by (simp add: new_rule_facts)
  have a: "AsIssued = AsIssued \<or> list_all (\<lambda>i. \<not> is_outdated (ttl ?c) i) [?id, new_rule 100]"
    by simp
  from createEmailTTLIndex_reconciles [OF v t p a] r show ?thesis
    by simp
qed

text \<open>
  The claim as stated fails from four prior states it covers, each with a configured
  TTL of 200. A rule with TTL 100 under a name that does not start with \<^verbatim>\<open>created_at\<close>
  is not found, and \<^verbatim>\<open>createIndex\<close> is refused: the stale rule stays. An index
  \<^verbatim>\<open>created_at_1\<close> without the filter is no rule, and \<^verbatim>\<open>createIndex\<close> is refused: no rule is
  made. Before the rule \<^verbatim>\<open>created_at_1\<close> with TTL 100, an index on \<^verbatim>\<open>{created_at: -1}\<close> with
  the filter and TTL 100 is the one found and dropped, and \<^verbatim>\<open>createIndex\<close> is refused: the
  stale rule stays. And from the rule \<^verbatim>\<open>created_at_1\<close> with TTL 100 alone, when the store
  applies the create before the drop, the create is refused and the drop removes the
  rule: none is left.
\<close>

theorem createEmailTTLIndex_counterexample:
  "createEmailTTLIndex AsIssued \<lparr>validate = True, ttl = 200\<rparr>
     [\<lparr>name = ''ttl_email'', key = [(''created_at'', 1)],
        partialFilterExpression = Some filterExpression, expireAfterSeconds = Some 100\<rparr>]
   = [\<lparr>name = ''ttl_email'', key = [(''created_at'', 1)],
        partialFilterExpression = Some filterExpression, expireAfterSeconds = Some 100\<rparr>] \<and>
   createEmailTTLIndex AsIssued \<lparr>validate = True, ttl = 200\<rparr>
     [\<lparr>name = ''created_at_1'', key = [(''created_at'', 1)],
        partialFilterExpression = None, expireAfterSeconds = None\<rparr>]
   = [\<lparr>name = ''created_at_1'', key = [(''created_at'', 1)],
        partialFilterExpression = None, expireAfterSeconds = None\<rparr>] \<and>
   \<not> is_rule \<lparr>name = ''created_at_1'', key = [(''created_at'', 1)],
        partialFilterExpression = None, expireAfterSeconds = None\<rparr> \<and>
   createEmailTTLIndex AsIssued \<lparr>validate = True, ttl = 200\<rparr>
     [\<lparr>name = ''created_at_-1'', key = [(''created_at'', - 1)],
        partialFilterExpression = Some filterExpression, expireAfterSeconds = Some 100\<rparr>,
      new_rule 100]
   = [new_rule 100] \<and>
   createEmailTTLIndex Reversed \<lparr>validate = True, ttl = 200\<rparr> [new_rule 100] = []"
proof -
  let ?c = "\<lparr>validate = True, ttl = 200\<rparr>"
  let ?e = "\<lparr>name = ''ttl_email'', key = [(''created_at'', 1)],
        partialFilterExpression = Some filterExpression, expireAfterSeconds = Some 100\<rparr>"
  let ?p = "\<lparr>name = ''created_at_1'', key = [(''created_at'', 1)],
        partialFilterExpression = None, expireAfterSeconds = None\<rparr>"
  have v: "validate ?c" and t: "0 < ttl ?c"
    by simp_all
  have "\<not> is_outdated 200 ?e" "occupies ?e"
    by (simp_all add: is_outdated_def startsWith_def occupies_def)
  then have 1: "createEmailTTLIndex AsIssued ?c [?e] = [?e]"
    using reconcile_nothing_outdated [OF v t, of "[?e]" AsIssued] create_occupied [of "[?e]" 200]
    by simp
  have "\<not> is_outdated 200 ?p" "occupies ?p"
    by (simp_all add: is_outdated_def occupies_def)
  then have 2: "createEmailTTLIndex AsIssued ?c [?p] = [?p]"
    using reconcile_nothing_outdated [OF v t, of "[?p]" AsIssued] create_occupied [of "[?p]" 200]
    by simp
  have 3: "\<not> is_rule ?p"
    by (simp add: is_rule_def)
  let ?m = "\<lparr>name = ''created_at_-1'', key = [(''created_at'', - 1)],
        partialFilterExpression = Some filterExpression, expireAfterSeconds = Some 100\<rparr>"
  have om: "find (is_outdated 200) [?m, new_rule 100] = Some ?m"
    by (simp add: is_outdated_def startsWith_def isEqual_filterExpression)
  have dm: "unobserved [?m, new_rule 100]
      (collection_dropIndex [?m, new_rule 100] ''created_at_-1'') = [new_rule 100]"
    by (simp add: collection_dropIndex_def unobserved_def new_rule_facts)
  have o: "find (is_outdated 200) [new_rule 100] = Some (new_rule 100)"
    by (simp add: is_outdated_def new_rule_def startsWith_def isEqual_filterExpression)
  have k: "unobserved [new_rule 100]
      (collection_createIndex [new_rule 100] [(''created_at'', 1)] 200 filterExpression)
      = [new_rule 100]"
    by (rule create_occupied) (simp add: new_rule_facts)
  have d: "unobserved [new_rule 100] (collection_dropIndex [new_rule 100] ''created_at_1'') = []"
    by (simp add: collection_dropIndex_def unobserved_def new_rule_facts)
  have 4: "createEmailTTLIndex Reversed ?c [new_rule 100] = []"
    using o k d by (simp add: createEmailTTLIndex_def Let_def new_rule_facts)
  have 5: "createEmailTTLIndex AsIssued ?c [?m, new_rule 100] = [new_rule 100]"
    using om dm k by (simp add: createEmailTTLIndex_def Let_def)
  show ?thesis
    using 1 2 3 4 5 by blast
qed

subsection \<open>Notifications\<close>

lemma sendMail_never_throws: "\<exists>r. sendMail N subject body users opts = Inr r"
  by (auto simp: sendMail_def Let_def split: option.splits sum.splits sg_data.splits list.splits)

lemma sendMail_false_cases:
  "sendMail N subject body None opts = Inr ReturnedFalse"
  "sendMail N subject body (Some []) opts = Inr ReturnedFalse"
  "\<not> isSendGrid N \<Longrightarrow> smtpTransport N = None
     \<Longrightarrow> sendMail N subject body users opts = Inr ReturnedFalse"
  "isSendGrid N \<Longrightarrow> users = Some (u # us)
     \<Longrightarrow> sgMail_send N \<lparr>msg_to = u # us, msg_from = mailer_from N, msg_subject = subject,
            msg_html = body, msg_opts = opts\<rparr> = Inl e
     \<Longrightarrow> sendMail N subject body users opts = Inr ReturnedFalse"
  "\<not> isSendGrid N \<Longrightarrow> users = Some (u # us) \<Longrightarrow> smtpTransport N = Some send
     \<Longrightarrow> send \<lparr>msg_to = u # us, msg_from = mailer_from N, msg_subject = subject,
            msg_html = body, msg_opts = opts\<rparr> = Inl e
     \<Longrightarrow> sendMail N subject body users opts = Inr ReturnedFalse"
  by (auto simp: sendMail_def Let_def split: option.splits)

lemma sendSMS_unconfigured:
  "\<not> truthy (phone doc) \<or> twilioConfig N = None \<Longrightarrow> sendSMS N doc body = Inr ReturnedFalse"
  by (auto simp: sendSMS_def split: jsval.splits option.splits)

lemma load_twilio_placeholder:
  "load_twilio (Some \<lparr>tw_from = Str ''TWILIO_FROM'', accountID = a, authToken = t\<rparr>) v = Inr False"
  "load_twilio (Some \<lparr>tw_from = Undefined, accountID = a, authToken = t\<rparr>) v = Inr False"
  by (simp_all add: load_twilio_def)

text \<open>
  C9: with a phone number and a Twilio client, a send that Twilio rejects is the
  rejection of what \<^verbatim>\<open>sendSMS\<close> returns, not the value \<^verbatim>\<open>false\<close>.
\<close>

theorem sendSMS_propagates_rejection:
  "sendSMS (N\<lparr>twilioConfig := Some (\<lambda>m. Inl (Error ''unreachable''))\<rparr>)
     (schema_defaults\<lparr>phone := Str ''+15551234567''\<rparr>) body
   = Inl (Error ''unreachable'')"
  by (simp add: sendSMS_def)

end
